theory Spec2Isabelle
  imports Main "HOL-Library.Word"
begin

section \<open>PeekXtract: remote ZIP listing and selective extraction\<close>

text \<open>
  A shallow embedding of the two source files of the repository, \<^verbatim>\<open>peekxtract.py\<close>
  (the current engine) and \<^verbatim>\<open>main.py\<close> (its earlier copy). Python integers are
  \<^typ>\<open>int\<close>, a \<^verbatim>\<open>bytes\<close> value is a list of 8-bit words, a \<^verbatim>\<open>str\<close> is the list of
  its Unicode code points, and every exception the code can raise is a value of the
  type \<open>error\<close> on the left of a sum.
\<close>

subsection \<open>Python values\<close>

type_synonym byte = "8 word"
type_synonym bytes = "byte list"
type_synonym pystr = "nat list"

text \<open>The code points of an ASCII literal.\<close>

definition codes :: "string \<Rightarrow> pystr" where
  "codes s = map of_char s"

text \<open>
  \<^verbatim>\<open>xs[a:b]\<close>: a negative bound counts from the end, both bounds are clamped to the
  sequence, and an empty range gives the empty sequence.
\<close>

definition slice_bound :: "nat \<Rightarrow> int \<Rightarrow> nat" where
  "slice_bound n i = nat (if i < 0 then max 0 (int n + i) else min (int n) i)"

definition py_slice :: "'a list \<Rightarrow> int \<Rightarrow> int \<Rightarrow> 'a list" where
  "py_slice xs a b =
     (let lo = slice_bound (length xs) a; hi = slice_bound (length xs) b
      in take (hi - lo) (drop lo xs))"

text \<open>
  \<^verbatim>\<open>str.isspace\<close> on one code point, the characters \<^verbatim>\<open>str.strip()\<close> removes.
\<close>

definition is_space :: "nat \<Rightarrow> bool" where
  "is_space c \<longleftrightarrow>
     (9 \<le> c \<and> c \<le> 13) \<or> (28 \<le> c \<and> c \<le> 32) \<or> c = 133 \<or> c = 160 \<or> c = 5760
     \<or> (8192 \<le> c \<and> c \<le> 8202) \<or> c = 8232 \<or> c = 8233 \<or> c = 8239 \<or> c = 8287
     \<or> c = 12288"

definition py_strip :: "pystr \<Rightarrow> pystr" where
  "py_strip s = rev (dropWhile is_space (rev (dropWhile is_space s)))"

text \<open>\<^verbatim>\<open>s.split(sep)\<close> for a one-character separator: never the empty list.\<close>

fun py_split :: "nat \<Rightarrow> pystr \<Rightarrow> pystr list" where
  "py_split sep [] = [[]]"
| "py_split sep (c # cs) =
     (if c = sep then [] # py_split sep cs
      else (case py_split sep cs of
              [] \<Rightarrow> [[c]]
            | p # ps \<Rightarrow> (c # p) # ps))"

text \<open>
  \<^verbatim>\<open>a, b = s.split(sep, 1)\<close> when \<^verbatim>\<open>sep in s\<close>: the text before and after the first
  separator.
\<close>

definition py_split1 :: "nat \<Rightarrow> pystr \<Rightarrow> pystr \<times> pystr" where
  "py_split1 sep s = (takeWhile (\<lambda>c. c \<noteq> sep) s, tl (dropWhile (\<lambda>c. c \<noteq> sep) s))"

text \<open>
  \<^verbatim>\<open>int(s)\<close> on ASCII text: surrounding whitespace, an optional sign, decimal digits
  with single underscores between them. \<open>None\<close> is \<^verbatim>\<open>ValueError\<close>. The functions
  below take the conversion as an argument, so that what is proved of them holds
  for the interpreter's own \<^verbatim>\<open>int\<close>, which also reads the decimal digits of other
  scripts; \<open>ascii_int\<close> is the instance used to run them.
\<close>

definition is_digit :: "nat \<Rightarrow> bool" where
  "is_digit c \<longleftrightarrow> 48 \<le> c \<and> c \<le> 57"

fun digits_value :: "int \<Rightarrow> pystr \<Rightarrow> int option" where
  "digits_value acc [] = Some acc"
| "digits_value acc [c] = (if is_digit c then Some (acc * 10 + (int c - 48)) else None)"
| "digits_value acc (c # d # cs) =
     (if is_digit c then
        (if d = 95 then
           (case cs of
              [] \<Rightarrow> None
            | e # es \<Rightarrow> if is_digit e then digits_value (acc * 10 + (int c - 48)) cs else None)
         else digits_value (acc * 10 + (int c - 48)) (d # cs))
      else None)"

definition ascii_int :: "pystr \<Rightarrow> int option" where
  "ascii_int s =
     (case py_strip s of
        [] \<Rightarrow> None
      | c # cs \<Rightarrow>
          if c = 43 then (if cs = [] then None else digits_value 0 cs)
          else if c = 45 then (if cs = [] then None else map_option uminus (digits_value 0 cs))
          else digits_value 0 (c # cs))"

subsection \<open>Range expressions of the command loop\<close>

text \<open>
  \<^verbatim>\<open>parse_range(range_str, max_val)\<close> of \<^verbatim>\<open>peekxtract.py\<close>. One step of its loop
  over the comma-separated parts: a \<^verbatim>\<open>ValueError\<close> of either conversion is caught and
  the loop continues with the result unchanged.
\<close>

definition parse_range_part :: "(pystr \<Rightarrow> int option) \<Rightarrow> int \<Rightarrow> int list \<Rightarrow> pystr \<Rightarrow> int list" where
  "parse_range_part to_int max_val result part0 =
     (let part = py_strip part0 in
      if 45 \<in> set part then
        (case py_split1 45 part of (start, end) \<Rightarrow>
           (case to_int (py_strip start) of
              None \<Rightarrow> result
            | Some start_num \<Rightarrow>
                (case to_int (py_strip end) of
                   None \<Rightarrow> result
                 | Some end_num \<Rightarrow>
                     if start_num \<le> end_num \<and> start_num \<ge> 1 \<and> end_num \<le> max_val
                     then result @ [start_num..end_num]
                     else result)))
      else
        (case to_int part of
           None \<Rightarrow> result
         | Some num \<Rightarrow> if 1 \<le> num \<and> num \<le> max_val then result @ [num] else result))"

definition parse_range :: "(pystr \<Rightarrow> int option) \<Rightarrow> pystr \<Rightarrow> int \<Rightarrow> int list" where
  "parse_range to_int range_str max_val =
     sorted_list_of_set (set (foldl (parse_range_part to_int max_val) [] (py_split 44 range_str)))"

subsection \<open>Exceptions, \<^verbatim>\<open>struct.unpack\<close> and the byte source\<close>

text \<open>The exceptions raised in the two files, by the place that raises them.\<close>

datatype error =
    StructError
  | ReadFailed
  | TypeError
  | Zip64NegativeOffset
  | Zip64LocatorReadFailed
  | Zip64LocatorNotFound
  | Zip64EOCDReadFailed
  | InvalidZip64EOCDSignature
  | Zip64EOCDTooShort
  | EOCDNotFound
  | InvalidLocalHeaderSignature

text \<open>
  \<open>raise_or m f\<close> runs \<open>f\<close> on the value of \<open>m\<close>, unless \<open>m\<close> raised: the exception
  then leaves the enclosing function.
\<close>

definition raise_or :: "error + 'a \<Rightarrow> ('a \<Rightarrow> error + 'b) \<Rightarrow> error + 'b" where
  "raise_or m f = (case m of Inl e \<Rightarrow> Inl e | Inr x \<Rightarrow> f x)"

text \<open>An unsigned little-endian integer, least significant byte first.\<close>

fun le_int :: "bytes \<Rightarrow> int" where
  "le_int [] = 0"
| "le_int (b # bs) = uint b + 256 * le_int bs"

lemma le_int_nonneg: "0 \<le> le_int bs"
  by (induction bs) simp_all

text \<open>
  \<^verbatim>\<open>struct.unpack('<...', data)\<close> for a format of unsigned fields, given by their widths
  in bytes (\<^verbatim>\<open>H\<close> is 2, \<^verbatim>\<open>I\<close> and \<^verbatim>\<open>L\<close> are 4, \<^verbatim>\<open>Q\<close> is 8; with \<^verbatim>\<open><\<close> there is no
  padding): \<^verbatim>\<open>struct.error\<close> unless the buffer has exactly the size of the format.
\<close>

fun unpack_fields :: "nat list \<Rightarrow> bytes \<Rightarrow> int list" where
  "unpack_fields [] bs = []"
| "unpack_fields (w # ws) bs = le_int (take w bs) # unpack_fields ws (drop w bs)"

definition struct_unpack :: "nat list \<Rightarrow> bytes \<Rightarrow> error + int list" where
  "struct_unpack ws bs =
     (if length bs = sum_list ws then Inr (unpack_fields ws bs) else Inl StructError)"

text \<open>\<^verbatim>\<open>struct.unpack(fmt, data)[0]\<close> for a format of one field.\<close>

definition unpack_uint :: "nat \<Rightarrow> bytes \<Rightarrow> error + int" where
  "unpack_uint w bs = (if length bs = w then Inr (le_int bs) else Inl StructError)"

text \<open>
  The parsers read the archive only through \<^verbatim>\<open>self._read_bytes(start, length)\<close>. They
  take its outcome as the function \<open>rd\<close>: the bytes the call returns, or the exception
  it raises once its attempts are used up.
\<close>

type_synonym reader = "int \<Rightarrow> int \<Rightarrow> error + bytes"

text \<open>
  An origin that answers every range request with exactly the requested bytes of a
  fixed file, used to run the parsers on concrete archives.
\<close>

definition file_reader :: "bytes \<Rightarrow> reader" where
  "file_reader file start len = Inr (py_slice file start (start + len))"

subsection \<open>The catalog and the reader object\<close>

text \<open>
  One value of \<^verbatim>\<open>self.files_info\<close>. The dictionary itself has the keys
  \<open>0, 1, \<dots>, n - 1\<close> in insertion order, so it is the list of its values.
\<close>

record file_info =
  fi_filename :: pystr
  fi_compressed_size :: int
  fi_uncompressed_size :: int
  fi_compression_method :: int
  fi_local_header_offset :: int
  fi_crc32 :: int

text \<open>
  The attributes of \<^verbatim>\<open>EnhancedRemoteZipReader\<close> that the parsers and the download use.
  \<^verbatim>\<open>current_display_mapping\<close> is a dictionary from display index to catalog index,
  kept as its list of items.
\<close>

record zip_reader =
  file_size :: int
  files_info :: "file_info list"
  current_display_mapping :: "(int \<times> int) list"

text \<open>\<^verbatim>\<open>_get_actual_file_index\<close>.\<close>

definition get_actual_file_index :: "zip_reader \<Rightarrow> int \<Rightarrow> int" where
  "get_actual_file_index self display_index =
     (case map_of (current_display_mapping self) display_index of
        Some idx \<Rightarrow> idx
      | None \<Rightarrow> display_index)"

subsection \<open>The ranged read\<close>

text \<open>
  What \<^verbatim>\<open>self.session.get(url, headers={'Range': 'bytes=start-end'})\<close> gives: a response
  with its status code and body, or an exception of the transport (time-out, refused
  connection).
\<close>

datatype response = Response int bytes | RequestException

text \<open>
  The origin as the read sees it: the answer to the request for the inclusive range
  \<open>start\<close>--\<open>end\<close> on the given attempt (counted from 0) of one call.
\<close>

type_synonym session = "int \<Rightarrow> int \<Rightarrow> int \<Rightarrow> response"

text \<open>
  The loop \<^verbatim>\<open>for attempt in range(max_retries)\<close> of \<^verbatim>\<open>_read_bytes\<close> in
  \<^verbatim>\<open>peekxtract.py\<close>, over the attempts still to make, with the list of
  \<^verbatim>\<open>time.sleep\<close> durations so far. The handler sleeps \<^verbatim>\<open>2 ** attempt\<close> seconds and
  continues, unless the attempt was the last one: then it raises. A loop that runs
  out of attempts without returning or raising returns \<^verbatim>\<open>None\<close>.
\<close>

fun read_bytes_attempts ::
  "(int \<Rightarrow> response) \<Rightarrow> int \<Rightarrow> int list \<Rightarrow> int list \<Rightarrow> (error + bytes option) \<times> int list" where
  "read_bytes_attempts get max_retries [] sleeps = (Inr None, sleeps)"
| "read_bytes_attempts get max_retries (attempt # rest) sleeps =
     (let handler =
            (if attempt < max_retries - 1
             then read_bytes_attempts get max_retries rest (sleeps @ [2 ^ nat attempt])
             else (Inl ReadFailed, sleeps))
      in case get attempt of
           Response status_code content \<Rightarrow>
             if status_code \<noteq> 206 \<and> status_code \<noteq> 200 then handler
             else (Inr (Some content), sleeps)
         | RequestException \<Rightarrow> handler)"

text \<open>
  \<^verbatim>\<open>_read_bytes(start, length, max_retries)\<close> of \<^verbatim>\<open>peekxtract.py\<close>: what it returns or
  raises, and the seconds it slept, in order.
\<close>

definition read_bytes :: "session \<Rightarrow> int \<Rightarrow> int \<Rightarrow> int \<Rightarrow> (error + bytes option) \<times> int list" where
  "read_bytes session start len max_retries =
     (let end = start + len - 1
      in read_bytes_attempts (session start end) max_retries [0..max_retries - 1] [])"

text \<open>\<^verbatim>\<open>_read_bytes(start, length)\<close> of \<^verbatim>\<open>main.py\<close>: one attempt, no sleep.\<close>

definition main_read_bytes :: "session \<Rightarrow> int \<Rightarrow> int \<Rightarrow> error + bytes" where
  "main_read_bytes session start len =
     (let end = start + len - 1
      in case session start end 0 of
           Response status_code content \<Rightarrow>
             if status_code \<noteq> 206 \<and> status_code \<noteq> 200 then Inl ReadFailed
             else Inr content
         | RequestException \<Rightarrow> Inl ReadFailed)"

text \<open>
  The byte source of the parsers over a session: \<^verbatim>\<open>_read_bytes\<close> with its default of
  three attempts. With three attempts the call returns bytes or raises; \<^verbatim>\<open>None\<close>
  would fail in the caller's first subscript.
\<close>

definition session_reader :: "session \<Rightarrow> reader" where
  "session_reader session start len =
     (case fst (read_bytes session start len 3) of
        Inl e \<Rightarrow> Inl e
      | Inr None \<Rightarrow> Inl TypeError
      | Inr (Some content) \<Rightarrow> Inr content)"

text \<open>
  A response that \<^verbatim>\<open>_read_bytes\<close> returns from (status 206 or 200), and the body of a
  response.
\<close>

definition accepted :: "response \<Rightarrow> bool" where
  "accepted r = (case r of Response status_code content \<Rightarrow> status_code = 206 \<or> status_code = 200
                 | RequestException \<Rightarrow> False)"

definition body :: "response \<Rightarrow> bytes" where
  "body r = (case r of Response status_code content \<Rightarrow> content | RequestException \<Rightarrow> [])"

subsection \<open>Locating the central directory\<close>

text \<open>
  The backward scans \<^verbatim>\<open>for i in range(len(data) - m, -1, -1)\<close> with the test
  \<^verbatim>\<open>data[i:i+4] == sig\<close>: the largest \<open>i\<close> at or below the start index where the
  signature stands, if any.
\<close>

function scan_back :: "bytes \<Rightarrow> bytes \<Rightarrow> int \<Rightarrow> int option" where
  "scan_back data sig i =
     (if i < 0 then None
      else if py_slice data i (i + 4) = sig then Some i
      else scan_back data sig (i - 1))"
  by pat_completeness auto
termination
  by (relation "measure (\<lambda>(data, sig, i). nat (i + 1))") auto

declare scan_back.simps [simp del]

text \<open>\<^verbatim>\<open>_fallback_find_zip64_locator\<close> of \<^verbatim>\<open>peekxtract.py\<close>.\<close>

definition fallback_find_zip64_locator :: "reader \<Rightarrow> zip_reader \<Rightarrow> error + (int \<times> int)" where
  "fallback_find_zip64_locator rd self =
     (let zip64_locator_sig = [0x50, 0x4b, 0x06, 0x07];
          search_size = min 8192 (file_size self);
          start_pos = max 0 (file_size self - search_size)
      in raise_or (rd start_pos search_size) (\<lambda>data.
           case scan_back data zip64_locator_sig (int (length data) - 20) of
             None \<Rightarrow> Inl Zip64LocatorNotFound
           | Some i \<Rightarrow>
               (let zip64_locator_pos = start_pos + i
                in raise_or (rd zip64_locator_pos 20) (\<lambda>locator_data.
                   raise_or (struct_unpack [4, 4, 8, 4] locator_data) (\<lambda>l.
                     Inr (l ! 2, l ! 3))))))"

text \<open>
  \<^verbatim>\<open>_find_zip64_end_of_central_directory(eocd_offset)\<close> of \<^verbatim>\<open>peekxtract.py\<close>: the
  offset of the ZIP64 end-of-central-directory record and the number of disks, from
  the locator 20 bytes before the end-of-central-directory record or, when its
  signature is not there, from the fallback scan.
\<close>

definition find_zip64_end_of_central_directory ::
  "reader \<Rightarrow> zip_reader \<Rightarrow> int \<Rightarrow> error + (int \<times> int)" where
  "find_zip64_end_of_central_directory rd self eocd_offset =
     (let zip64_locator_offset = eocd_offset - 20 in
      if zip64_locator_offset < 0 then Inl Zip64NegativeOffset
      else
        (case rd zip64_locator_offset 20 of
           Inl e \<Rightarrow> Inl Zip64LocatorReadFailed
         | Inr locator_data \<Rightarrow>
             raise_or (unpack_uint 4 (py_slice locator_data 0 4)) (\<lambda>signature.
               if signature \<noteq> 0x07064b50 then fallback_find_zip64_locator rd self
               else raise_or (struct_unpack [4, 8, 4] (py_slice locator_data 4 20)) (\<lambda>l.
                      Inr (l ! 1, l ! 2)))))"

text \<open>
  \<^verbatim>\<open>_find_end_of_central_directory\<close> of \<^verbatim>\<open>peekxtract.py\<close>: the offset and size of the
  central directory. The first signature found from the end decides.
\<close>

definition find_end_of_central_directory :: "reader \<Rightarrow> zip_reader \<Rightarrow> error + (int \<times> int)" where
  "find_end_of_central_directory rd self =
     (let eocd_signature = [0x50, 0x4b, 0x05, 0x06];
          search_size = min 4096 (file_size self);
          start_pos = file_size self - search_size
      in raise_or (rd start_pos search_size) (\<lambda>data.
           case scan_back data eocd_signature (int (length data) - 22) of
             None \<Rightarrow> Inl EOCDNotFound
           | Some i \<Rightarrow>
               (let eocd_offset = start_pos + i;
                    eocd_data = py_slice data i (i + 22)
                in raise_or (struct_unpack [4, 2, 2, 2, 2, 4, 4, 2] eocd_data) (\<lambda>e.
                     let cd_entries_total = e ! 4; cd_size = e ! 5; cd_offset = e ! 6 in
                     if cd_offset = 0xFFFFFFFF \<or> cd_entries_total = 0xFFFF then
                       raise_or (find_zip64_end_of_central_directory rd self eocd_offset)
                         (\<lambda>(zip64_eocd_offset, total_disks).
                       raise_or (rd zip64_eocd_offset 56) (\<lambda>zip64_eocd_data.
                       raise_or (struct_unpack [4, 8, 2, 2, 4, 4, 8, 8, 8, 8]
                                   (py_slice zip64_eocd_data 0 56)) (\<lambda>z.
                         let cd_entries_total = z ! 7; cd_size = z ! 8; cd_offset = z ! 9
                         in Inr (cd_offset, cd_size))))
                     else Inr (cd_offset, cd_size)))))"

text \<open>
  The ZIP64 end-of-central-directory record as \<^verbatim>\<open>main.py\<close> reads it, in both
  \<^verbatim>\<open>_find_zip64_end_of_central_directory\<close> and \<^verbatim>\<open>_search_zip64_locator_fallback\<close>:
  the 12-byte head, the signature check, the record itself (at most 1024 bytes) and
  the fields at 40 and 48.
\<close>

definition main_read_zip64_eocd :: "reader \<Rightarrow> int \<Rightarrow> error + (int \<times> int)" where
  "main_read_zip64_eocd rd zip64_eocd_offset =
     raise_or (rd zip64_eocd_offset 12) (\<lambda>zip64_eocd_header.
     raise_or (struct_unpack [4, 8] zip64_eocd_header) (\<lambda>h.
       let signature = h ! 0; eocd64_size = h ! 1 in
       if signature \<noteq> 0x06064b50 then Inl InvalidZip64EOCDSignature
       else
     raise_or (rd zip64_eocd_offset (min (eocd64_size + 12) 1024)) (\<lambda>full_zip64_eocd.
       if length full_zip64_eocd < 56 then Inl Zip64EOCDTooShort
       else
     raise_or (unpack_uint 8 (py_slice full_zip64_eocd 32 40)) (\<lambda>cd_entries_total.
     raise_or (unpack_uint 8 (py_slice full_zip64_eocd 40 48)) (\<lambda>cd_size.
     raise_or (unpack_uint 8 (py_slice full_zip64_eocd 48 56)) (\<lambda>cd_offset.
       Inr (cd_offset, cd_size)))))))"

text \<open>\<^verbatim>\<open>_search_zip64_locator_fallback\<close> of \<^verbatim>\<open>main.py\<close>.\<close>

definition main_search_zip64_locator_fallback :: "reader \<Rightarrow> zip_reader \<Rightarrow> error + (int \<times> int)" where
  "main_search_zip64_locator_fallback rd self =
     (let zip64_locator_sig = [0x50, 0x4b, 0x07, 0x06];
          search_size = min 8192 (file_size self);
          start_pos = max 0 (file_size self - search_size)
      in raise_or (rd start_pos search_size) (\<lambda>data.
           case scan_back data zip64_locator_sig (int (length data) - 20) of
             None \<Rightarrow> Inl Zip64LocatorNotFound
           | Some i \<Rightarrow>
               (let zip64_locator_pos = start_pos + i
                in raise_or (rd zip64_locator_pos 20) (\<lambda>locator_data.
                   raise_or (struct_unpack [4, 4, 8, 4] locator_data) (\<lambda>l.
                     let zip64_eocd_offset = l ! 2
                     in main_read_zip64_eocd rd zip64_eocd_offset)))))"

text \<open>
  \<^verbatim>\<open>_find_zip64_end_of_central_directory(eocd_offset)\<close> of \<^verbatim>\<open>main.py\<close>, which goes on
  to read the record and returns the offset and size of the central directory. Every
  exception of that last part is raised again as one failure to read the record.
\<close>

definition main_find_zip64_end_of_central_directory ::
  "reader \<Rightarrow> zip_reader \<Rightarrow> int \<Rightarrow> error + (int \<times> int)" where
  "main_find_zip64_end_of_central_directory rd self eocd_offset =
     (let zip64_locator_offset = eocd_offset - 20 in
      if zip64_locator_offset < 0 then Inl Zip64NegativeOffset
      else
        (case rd zip64_locator_offset 20 of
           Inl e \<Rightarrow> Inl Zip64LocatorReadFailed
         | Inr locator_data \<Rightarrow>
             raise_or (unpack_uint 4 (py_slice locator_data 0 4)) (\<lambda>signature.
               if signature \<noteq> 0x07064b50 then main_search_zip64_locator_fallback rd self
               else raise_or (struct_unpack [4, 4, 8, 4] locator_data) (\<lambda>l.
                      let zip64_eocd_offset = l ! 2 in
                      case main_read_zip64_eocd rd zip64_eocd_offset of
                        Inl e \<Rightarrow> Inl Zip64EOCDReadFailed
                      | Inr r \<Rightarrow> Inr r))))"

text \<open>\<^verbatim>\<open>_find_end_of_central_directory\<close> of \<^verbatim>\<open>main.py\<close>.\<close>

definition main_find_end_of_central_directory :: "reader \<Rightarrow> zip_reader \<Rightarrow> error + (int \<times> int)" where
  "main_find_end_of_central_directory rd self =
     (let eocd_signature = [0x50, 0x4b, 0x05, 0x06];
          search_size = min 4096 (file_size self);
          start_pos = file_size self - search_size
      in raise_or (rd start_pos search_size) (\<lambda>data.
           case scan_back data eocd_signature (int (length data) - 22) of
             None \<Rightarrow> Inl EOCDNotFound
           | Some i \<Rightarrow>
               (let eocd_offset = start_pos + i;
                    eocd_data = py_slice data i (i + 22)
                in raise_or (struct_unpack [4, 2, 2, 2, 2, 4, 4, 2] eocd_data) (\<lambda>e.
                     let cd_entries_total = e ! 4; cd_size = e ! 5; cd_offset = e ! 6 in
                     if cd_offset = 0xFFFFFFFF \<or> cd_entries_total = 0xFFFF
                        \<or> cd_size = 0xFFFFFFFF
                     then main_find_zip64_end_of_central_directory rd self eocd_offset
                     else Inr (cd_offset, cd_size)))))"

subsection \<open>Decoding member names\<close>

text \<open>
  \<^verbatim>\<open>bytes.decode('utf-8', errors='ignore')\<close>, the call both files make on a member
  name. A well-formed sequence gives its code point. An ill-formed one gives nothing:
  a byte that cannot start a sequence is skipped alone; a sequence broken by a byte
  that cannot continue it is skipped up to that byte, which is read again as a start;
  a sequence cut off by the end of the input is skipped whole.
\<close>

definition is_cont :: "nat \<Rightarrow> bool" where
  "is_cont c \<longleftrightarrow> 0x80 \<le> c \<and> c \<le> 0xBF"

text \<open>The second byte allowed after a lead byte of a 3- or 4-byte sequence.\<close>

definition valid_second :: "nat \<Rightarrow> nat \<Rightarrow> bool" where
  "valid_second lead c \<longleftrightarrow>
     (if lead = 0xE0 then 0xA0 \<le> c \<and> c \<le> 0xBF
      else if lead = 0xED then 0x80 \<le> c \<and> c \<le> 0x9F
      else if lead = 0xF0 then 0x90 \<le> c \<and> c \<le> 0xBF
      else if lead = 0xF4 then 0x80 \<le> c \<and> c \<le> 0x8F
      else is_cont c)"

fun utf8_decode_ignore :: "bytes \<Rightarrow> pystr" where
  "utf8_decode_ignore [] = []"
| "utf8_decode_ignore (b # bs) =
     (let n = unat b in
      if n < 0x80 then n # utf8_decode_ignore bs
      else if 0xC2 \<le> n \<and> n \<le> 0xDF then
        (case bs of
           [] \<Rightarrow> []
         | c1 # r1 \<Rightarrow>
             if is_cont (unat c1)
             then ((n - 0xC0) * 64 + (unat c1 - 0x80)) # utf8_decode_ignore r1
             else utf8_decode_ignore bs)
      else if 0xE0 \<le> n \<and> n \<le> 0xEF then
        (case bs of
           [] \<Rightarrow> []
         | c1 # r1 \<Rightarrow>
             if valid_second n (unat c1) then
               (case r1 of
                  [] \<Rightarrow> []
                | c2 # r2 \<Rightarrow>
                    if is_cont (unat c2)
                    then ((n - 0xE0) * 4096 + (unat c1 - 0x80) * 64 + (unat c2 - 0x80))
                         # utf8_decode_ignore r2
                    else utf8_decode_ignore r1)
             else utf8_decode_ignore bs)
      else if 0xF0 \<le> n \<and> n \<le> 0xF4 then
        (case bs of
           [] \<Rightarrow> []
         | c1 # r1 \<Rightarrow>
             if valid_second n (unat c1) then
               (case r1 of
                  [] \<Rightarrow> []
                | c2 # r2 \<Rightarrow>
                    if is_cont (unat c2) then
                      (case r2 of
                         [] \<Rightarrow> []
                       | c3 # r3 \<Rightarrow>
                           if is_cont (unat c3)
                           then ((n - 0xF0) * 262144 + (unat c1 - 0x80) * 4096
                                 + (unat c2 - 0x80) * 64 + (unat c3 - 0x80))
                                # utf8_decode_ignore r3
                           else utf8_decode_ignore r2)
                    else utf8_decode_ignore r1)
             else utf8_decode_ignore bs)
      else utf8_decode_ignore bs)"

declare utf8_decode_ignore.simps(2) [simp del]

text \<open>
  The bytes \<^verbatim>\<open>c0\<close>, \<^verbatim>\<open>c1\<close> and \<^verbatim>\<open>f5\<close> to \<^verbatim>\<open>ff\<close>, which occur in no UTF-8 text: they
  neither start nor continue a sequence.
\<close>

definition never_valid :: "byte \<Rightarrow> bool" where
  "never_valid b \<longleftrightarrow> unat b = 0xC0 \<or> unat b = 0xC1 \<or> 0xF5 \<le> unat b"

text \<open>The bytes hold \<^verbatim>\<open>ef bf bd\<close>, the UTF-8 encoding of U+FFFD, somewhere.\<close>

definition holds_replacement :: "bytes \<Rightarrow> bool" where
  "holds_replacement bs \<longleftrightarrow> (\<exists>pre post. bs = pre @ [0xEF, 0xBF, 0xBD] @ post)"

text \<open>\<^verbatim>\<open>str(n)\<close> for an integer that is not negative.\<close>

fun decimal :: "nat \<Rightarrow> pystr" where
  "decimal n = (if n < 10 then [48 + n] else decimal (n div 10) @ [48 + n mod 10])"

declare decimal.simps [simp del]

subsection \<open>The central-directory walk\<close>

text \<open>
  The body of \<^verbatim>\<open>if header_id == 0x0001\<close> in \<^verbatim>\<open>_parse_zip64_extra_field\<close> of
  \<^verbatim>\<open>peekxtract.py\<close>, for the record whose 4-byte head is at \<open>offset\<close>: the triple
  \<^verbatim>\<open>(result_uncompressed, result_compressed, result_offset)\<close>. The room test uses the
  declared \<^verbatim>\<open>data_size\<close>; a \<^verbatim>\<open><Q\<close> read that finds fewer than 8 bytes raises.
\<close>

definition zip64_record_values ::
  "bytes \<Rightarrow> int \<Rightarrow> int \<Rightarrow> int \<Rightarrow> int \<Rightarrow> int \<Rightarrow> error + (int \<times> int \<times> int)" where
  "zip64_record_values extra_data offset data_size compressed_size uncompressed_size
       local_header_offset =
     (let field_offset = (0::int) in
      raise_or
        (if uncompressed_size = 0xFFFFFFFF \<and> field_offset + 8 \<le> data_size
         then raise_or (unpack_uint 8 (py_slice extra_data (offset + 4 + field_offset)
                          (offset + 4 + field_offset + 8)))
                (\<lambda>v. Inr (v, field_offset + 8))
         else Inr (uncompressed_size, field_offset))
        (\<lambda>(result_uncompressed, field_offset).
      raise_or
        (if compressed_size = 0xFFFFFFFF \<and> field_offset + 8 \<le> data_size
         then raise_or (unpack_uint 8 (py_slice extra_data (offset + 4 + field_offset)
                          (offset + 4 + field_offset + 8)))
                (\<lambda>v. Inr (v, field_offset + 8))
         else Inr (compressed_size, field_offset))
        (\<lambda>(result_compressed, field_offset).
      raise_or
        (if local_header_offset = 0xFFFFFFFF \<and> field_offset + 8 \<le> data_size
         then unpack_uint 8 (py_slice extra_data (offset + 4 + field_offset)
                (offset + 4 + field_offset + 8))
         else Inr local_header_offset)
        (\<lambda>result_offset.
      Inr (result_uncompressed, result_compressed, result_offset)))))"

text \<open>
  \<^verbatim>\<open>_parse_zip64_extra_field\<close> of \<^verbatim>\<open>peekxtract.py\<close>, from the loop's current
  \<open>offset\<close> (0 at the call). \<open>Inr None\<close> is \<^verbatim>\<open>return None\<close>: no record with header ID
  1. The loop's guard gives both 2-byte reads their two bytes.
\<close>

function parse_zip64_extra_field ::
  "bytes \<Rightarrow> int \<Rightarrow> int \<Rightarrow> int \<Rightarrow> int \<Rightarrow> error + (int \<times> int \<times> int) option" where
  "parse_zip64_extra_field extra_data offset compressed_size uncompressed_size
       local_header_offset =
     (if offset + 4 \<le> int (length extra_data) then
        (let header_id = le_int (py_slice extra_data offset (offset + 2));
             data_size = le_int (py_slice extra_data (offset + 2) (offset + 4))
         in if header_id = 0x0001 then
              map_sum id Some
                (zip64_record_values extra_data offset data_size compressed_size
                   uncompressed_size local_header_offset)
            else parse_zip64_extra_field extra_data (offset + 4 + data_size)
                   compressed_size uncompressed_size local_header_offset)
      else Inr None)"
  by pat_completeness auto
termination
proof (relation "measure (\<lambda>(extra_data, offset, c, u, l). nat (int (length extra_data) - offset))")
  show "wf (measure (\<lambda>(extra_data, offset, c, u, l). nat (int (length extra_data) - offset)))"
    by simp
next
  fix extra_data :: bytes and offset c u l x xa :: int
  assume "offset + 4 \<le> int (length extra_data)"
    and "xa = le_int (py_slice extra_data (offset + 2) (offset + 4))"
  moreover have "0 \<le> le_int (py_slice extra_data (offset + 2) (offset + 4))"
    by (rule le_int_nonneg)
  ultimately show "((extra_data, offset + 4 + xa, c, u, l), (extra_data, offset, c, u, l))
    \<in> measure (\<lambda>(extra_data, offset, c, u, l). nat (int (length extra_data) - offset))"
    by simp
qed

declare parse_zip64_extra_field.simps [simp del]

text \<open>
  The same body in \<^verbatim>\<open>main.py\<close>, on the slice
  \<^verbatim>\<open>zip64_data = extra_data[offset+4:offset+4+data_size]\<close>: the room test uses the
  length of the slice, so no read is short.
\<close>

definition main_zip64_record_values ::
  "bytes \<Rightarrow> int \<Rightarrow> int \<Rightarrow> int \<Rightarrow> int \<times> int \<times> int" where
  "main_zip64_record_values zip64_data compressed_size uncompressed_size local_header_offset =
     (let zip64_offset = (0::int);
          (real_uncompressed_size, zip64_offset) =
            (if uncompressed_size = 0xFFFFFFFF \<and> zip64_offset + 8 \<le> int (length zip64_data)
             then (le_int (py_slice zip64_data zip64_offset (zip64_offset + 8)), zip64_offset + 8)
             else (uncompressed_size, zip64_offset));
          (real_compressed_size, zip64_offset) =
            (if compressed_size = 0xFFFFFFFF \<and> zip64_offset + 8 \<le> int (length zip64_data)
             then (le_int (py_slice zip64_data zip64_offset (zip64_offset + 8)), zip64_offset + 8)
             else (compressed_size, zip64_offset));
          real_local_header_offset =
            (if local_header_offset = 0xFFFFFFFF \<and> zip64_offset + 8 \<le> int (length zip64_data)
             then le_int (py_slice zip64_data zip64_offset (zip64_offset + 8))
             else local_header_offset)
      in (real_uncompressed_size, real_compressed_size, real_local_header_offset))"

text \<open>\<^verbatim>\<open>_parse_zip64_extra_field\<close> of \<^verbatim>\<open>main.py\<close>.\<close>

function main_parse_zip64_extra_field ::
  "bytes \<Rightarrow> int \<Rightarrow> int \<Rightarrow> int \<Rightarrow> int \<Rightarrow> (int \<times> int \<times> int) option" where
  "main_parse_zip64_extra_field extra_data offset compressed_size uncompressed_size
       local_header_offset =
     (if offset + 4 \<le> int (length extra_data) then
        (let header_id = le_int (py_slice extra_data offset (offset + 2));
             data_size = le_int (py_slice extra_data (offset + 2) (offset + 4))
         in if header_id = 0x0001 then
              Some (main_zip64_record_values
                      (py_slice extra_data (offset + 4) (offset + 4 + data_size))
                      compressed_size uncompressed_size local_header_offset)
            else main_parse_zip64_extra_field extra_data (offset + 4 + data_size)
                   compressed_size uncompressed_size local_header_offset)
      else None)"
  by pat_completeness auto
termination
proof (relation "measure (\<lambda>(extra_data, offset, c, u, l). nat (int (length extra_data) - offset))")
  show "wf (measure (\<lambda>(extra_data, offset, c, u, l). nat (int (length extra_data) - offset)))"
    by simp
next
  fix extra_data :: bytes and offset c u l x xa :: int
  assume "offset + 4 \<le> int (length extra_data)"
    and "xa = le_int (py_slice extra_data (offset + 2) (offset + 4))"
  moreover have "0 \<le> le_int (py_slice extra_data (offset + 2) (offset + 4))"
    by (rule le_int_nonneg)
  ultimately show "((extra_data, offset + 4 + xa, c, u, l), (extra_data, offset, c, u, l))
    \<in> measure (\<lambda>(extra_data, offset, c, u, l). nat (int (length extra_data) - offset))"
    by simp
qed

declare main_parse_zip64_extra_field.simps [simp del]

text \<open>
  The name of the record at \<open>offset\<close> in \<^verbatim>\<open>_parse_central_directory\<close> (both files):
  the decoded name bytes, or \<^verbatim>\<open>unnamed_file_<entry_count>\<close> for a record without a
  name.
\<close>

definition cd_filename :: "bytes \<Rightarrow> int \<Rightarrow> int \<Rightarrow> int \<Rightarrow> int \<Rightarrow> pystr" where
  "cd_filename cd_data filename_start filename_end filename_len entry_count =
     (if filename_len > 0
      then utf8_decode_ignore (py_slice cd_data filename_start filename_end)
      else codes ''unnamed_file_'' @ decimal (nat entry_count))"

text \<open>
  One pass of the \<^verbatim>\<open>while\<close> body of \<^verbatim>\<open>_parse_central_directory\<close> in
  \<^verbatim>\<open>peekxtract.py\<close>, after \<^verbatim>\<open>entry_count += 1\<close>, for a record that starts inside the
  data. \<open>None\<close> is \<^verbatim>\<open>break\<close>; otherwise the next offset and the catalog. The length
  test before the \<^verbatim>\<open>try\<close> gives the header its 46 bytes, so its unpacking cannot
  raise; an exception inside the \<^verbatim>\<open>try\<close> (a short ZIP64 read) skips 46 bytes and adds
  nothing.
\<close>

definition cd_entry :: "bytes \<Rightarrow> int \<Rightarrow> int \<Rightarrow> file_info list \<Rightarrow> (int \<times> file_info list) option" where
  "cd_entry cd_data offset entry_count files =
     (if offset + 46 > int (length cd_data) then None
      else
        (let header = unpack_fields [4, 2, 2, 2, 2, 2, 2, 4, 4, 4, 2, 2, 2, 2, 2, 4, 4]
                        (py_slice cd_data offset (offset + 46));
             signature = header ! 0
         in if signature \<noteq> 0x02014b50 then None
            else
              (let compression_method = header ! 4; crc32 = header ! 7;
                   compressed_size = header ! 8; uncompressed_size = header ! 9;
                   filename_len = header ! 10; extra_len = header ! 11;
                   comment_len = header ! 12; local_header_offset = header ! 16;
                   filename_start = offset + 46;
                   filename_end = filename_start + filename_len
               in if filename_end > int (length cd_data) then None
                  else
                    (let filename = cd_filename cd_data filename_start filename_end
                                      filename_len entry_count;
                         extra_start = filename_end;
                         extra_end = extra_start + extra_len;
                         zip64_info =
                           (if extra_len > 0 \<and> extra_end \<le> int (length cd_data)
                            then parse_zip64_extra_field
                                   (py_slice cd_data extra_start extra_end) 0
                                   compressed_size uncompressed_size local_header_offset
                            else Inr None)
                     in case zip64_info of
                          Inl e \<Rightarrow> Some (offset + 46, files)
                        | Inr info \<Rightarrow>
                            (let (real_uncompressed_size, real_compressed_size,
                                  real_local_header_offset) =
                                   (case info of
                                      Some r \<Rightarrow> r
                                    | None \<Rightarrow> (uncompressed_size, compressed_size,
                                               local_header_offset));
                                 files =
                                   (if (filename = [] \<or> last filename \<noteq> 47)
                                       \<and> (real_compressed_size > 0 \<or> real_uncompressed_size > 0)
                                    then files @
                                      [\<lparr>fi_filename = filename,
                                        fi_compressed_size = real_compressed_size,
                                        fi_uncompressed_size = real_uncompressed_size,
                                        fi_compression_method = compression_method,
                                        fi_local_header_offset = real_local_header_offset,
                                        fi_crc32 = crc32\<rparr>]
                                    else files)
                             in Some (offset + 46 + filename_len + extra_len + comment_len,
                                      files))))))"

lemma unpack_fields_nonneg: "i < length ws \<Longrightarrow> 0 \<le> unpack_fields ws bs ! i"
proof (induction ws arbitrary: bs i)
  case Nil
  then show ?case by simp
next
  case (Cons w ws)
  then show ?case by (cases i) (simp_all add: le_int_nonneg)
qed

lemma cd_entry_advances:
  assumes "cd_entry cd_data offset entry_count files = Some (offset', files')"
  shows "offset + 46 \<le> offset'"
proof -
  let ?h = "unpack_fields [4, 2, 2, 2, 2, 2, 2, 4, 4, 4, 2, 2, 2, 2, 2, 4, 4]
              (py_slice cd_data offset (offset + 46))"
  have "0 \<le> ?h ! 10" "0 \<le> ?h ! 11" "0 \<le> ?h ! 12"
    by (rule unpack_fields_nonneg, simp)+
  with assms show ?thesis
    by (auto simp: cd_entry_def Let_def split: if_splits sum.splits option.splits prod.splits)
qed

text \<open>
  The \<^verbatim>\<open>while offset < len(cd_data)\<close> loop of \<^verbatim>\<open>_parse_central_directory\<close> in
  \<^verbatim>\<open>peekxtract.py\<close>: the catalog when the loop ends.
\<close>

function cd_walk :: "bytes \<Rightarrow> int \<Rightarrow> int \<Rightarrow> file_info list \<Rightarrow> file_info list" where
  "cd_walk cd_data offset entry_count files =
     (if offset < int (length cd_data) then
        (case cd_entry cd_data offset (entry_count + 1) files of
           None \<Rightarrow> files
         | Some (offset', files') \<Rightarrow> cd_walk cd_data offset' (entry_count + 1) files')
      else files)"
  by pat_completeness auto
termination
proof (relation "measure (\<lambda>(cd_data, offset, n, fs). nat (int (length cd_data) - offset))")
  show "wf (measure (\<lambda>(cd_data, offset, n, fs). nat (int (length cd_data) - offset)))"
    by simp
next
  fix cd_data :: bytes and offset entry_count :: int and files :: "file_info list"
    and x2 :: "int \<times> file_info list" and x y
  assume "offset < int (length cd_data)"
    and "cd_entry cd_data offset (entry_count + 1) files = Some x2" and "(x, y) = x2"
  then have "offset + 46 \<le> x"
    using cd_entry_advances [of cd_data offset "entry_count + 1" files x y] by simp
  with \<open>offset < int (length cd_data)\<close>
  show "((cd_data, x, entry_count + 1, y), (cd_data, offset, entry_count, files))
    \<in> measure (\<lambda>(cd_data, offset, n, fs). nat (int (length cd_data) - offset))"
    by simp
qed

declare cd_walk.simps [simp del]

text \<open>
  \<^verbatim>\<open>_parse_central_directory\<close> of \<^verbatim>\<open>peekxtract.py\<close>. The walk stores its members
  under the keys \<open>0, 1, \<dots>\<close> of \<^verbatim>\<open>self.files_info\<close>; the method is called on an empty
  catalog only, and entries of an earlier catalog beyond the new ones would stay.
\<close>

definition parse_central_directory :: "reader \<Rightarrow> zip_reader \<Rightarrow> error + zip_reader" where
  "parse_central_directory rd self =
     raise_or (find_end_of_central_directory rd self) (\<lambda>(cd_offset, cd_size).
     raise_or (rd cd_offset cd_size) (\<lambda>cd_data.
       let found = cd_walk cd_data 0 0 []
       in Inr (self\<lparr>files_info := found @ drop (length found) (files_info self)\<rparr>)))"

subsection \<open>Listing and filtering\<close>

text \<open>\<^verbatim>\<open>needle in haystack\<close> for two strings.\<close>

fun starts_with :: "pystr \<Rightarrow> pystr \<Rightarrow> bool" where
  "starts_with s [] = True"
| "starts_with [] (p # ps) = False"
| "starts_with (c # cs) (p # ps) = (c = p \<and> starts_with cs ps)"

fun is_substring :: "pystr \<Rightarrow> pystr \<Rightarrow> bool" where
  "is_substring needle [] = (needle = [])"
| "is_substring needle (c # cs) = (starts_with (c # cs) needle \<or> is_substring needle cs)"

text \<open>
  \<^verbatim>\<open>re.compile(pattern, re.IGNORECASE)\<close> is an argument of the listing: it gives
  \<^verbatim>\<open>pattern.search\<close> as a test on names, or \<open>None\<close> for \<^verbatim>\<open>re.error\<close>. So is
  \<^verbatim>\<open>str.lower\<close>. The two instances below run the examples: lower case on ASCII
  letters, and an engine that compiles only a pattern free of metacharacters, as a
  search for that text in any case.
\<close>

type_synonym regex_engine = "pystr \<Rightarrow> (pystr \<Rightarrow> bool) option"

definition ascii_lower :: "pystr \<Rightarrow> pystr" where
  "ascii_lower s = map (\<lambda>c. if 65 \<le> c \<and> c \<le> 90 then c + 32 else c) s"

definition literal_regex :: regex_engine where
  "literal_regex pattern =
     (if list_ex (\<lambda>c. c \<in> set [46, 94, 36, 42, 43, 63, 123, 125, 91, 93, 92, 124, 40, 41])
           pattern
      then None
      else Some (\<lambda>name. is_substring (ascii_lower pattern) (ascii_lower name)))"

text \<open>
  \<^verbatim>\<open>list_files(filter_pattern)\<close> of \<^verbatim>\<open>peekxtract.py\<close>: the reader with its new
  \<^verbatim>\<open>current_display_mapping\<close>, and the values of \<^verbatim>\<open>files_to_display\<close> in display
  order (the table it prints). An exception of the first parse leaves the method.
\<close>

definition list_files ::
  "regex_engine \<Rightarrow> (pystr \<Rightarrow> pystr) \<Rightarrow> reader \<Rightarrow> zip_reader \<Rightarrow> pystr option
   \<Rightarrow> error + (zip_reader \<times> file_info list)" where
  "list_files re_compile lower rd self filter_pattern =
     raise_or (if files_info self = [] then parse_central_directory rd self else Inr self)
       (\<lambda>self.
          let items = zip (map int [0..<length (files_info self)]) (files_info self);
              identity = map (\<lambda>(i, info). (i, i)) items
          in if filter_pattern \<noteq> None \<and> filter_pattern \<noteq> Some [] then
               (let matched =
                      (case re_compile (the filter_pattern) of
                         Some pattern \<Rightarrow>
                           filter (\<lambda>(idx, info). pattern (fi_filename info)) items
                       | None \<Rightarrow>
                           (let filter_lower = lower (the filter_pattern)
                            in filter (\<lambda>(idx, info).
                                 is_substring filter_lower (lower (fi_filename info))) items));
                    files_to_display = map snd matched;
                    mapping = zip (map int [0..<length matched]) (map fst matched)
                in if files_to_display = []
                   then Inr (self\<lparr>current_display_mapping := identity\<rparr>, files_info self)
                   else Inr (self\<lparr>current_display_mapping := mapping\<rparr>, files_to_display))
             else Inr (self\<lparr>current_display_mapping := identity\<rparr>, files_info self))"

subsection \<open>The local-header probe\<close>

text \<open>
  The extra-field loop of \<^verbatim>\<open>_get_local_file_header_info\<close> in \<^verbatim>\<open>peekxtract.py\<close>, from
  the loop's current \<open>offset\<close> (0 at the call). It returns the compressed size: the
  64-bit value of the ZIP64 record (header ID 1) when the 32-bit field is the sentinel
  and the record declares room for it, the value it was given otherwise. The loop's
  guard gives both 2-byte reads their two bytes; a \<^verbatim>\<open><Q\<close> read of fewer than 8 bytes
  raises.
\<close>

function local_zip64_scan :: "bytes \<Rightarrow> int \<Rightarrow> int \<Rightarrow> int \<Rightarrow> error + int" where
  "local_zip64_scan extra_data offset compressed_size uncompressed_size =
     (if offset + 4 \<le> int (length extra_data) then
        (let header_id = le_int (py_slice extra_data offset (offset + 2));
             data_size = le_int (py_slice extra_data (offset + 2) (offset + 4))
         in if header_id = 0x0001 then
              (let field_offset = (0::int) in
               case (if uncompressed_size = 0xFFFFFFFF \<and> field_offset + 8 \<le> data_size
                     then map_sum id (\<lambda>v. (v, field_offset + 8))
                            (unpack_uint 8 (py_slice extra_data (offset + 4 + field_offset)
                               (offset + 4 + field_offset + 8)))
                     else Inr (uncompressed_size, field_offset)) of
                 Inl e \<Rightarrow> Inl e
               | Inr (uncompressed_size, field_offset) \<Rightarrow>
                   if compressed_size = 0xFFFFFFFF \<and> field_offset + 8 \<le> data_size
                   then unpack_uint 8 (py_slice extra_data (offset + 4 + field_offset)
                          (offset + 4 + field_offset + 8))
                   else Inr compressed_size)
            else local_zip64_scan extra_data (offset + 4 + data_size)
                   compressed_size uncompressed_size)
      else Inr compressed_size)"
  by pat_completeness auto

termination local_zip64_scan
proof (relation "measure (\<lambda>(extra_data, offset, c, u). nat (int (length extra_data) - offset))")
  show "wf (measure (\<lambda>(extra_data, offset, c, u). nat (int (length extra_data) - offset)))"
    by simp
next
  fix extra_data :: bytes and offset compressed_size uncompressed_size x xa :: int
  assume "offset + 4 \<le> int (length extra_data)"
    and "xa = le_int (py_slice extra_data (offset + 2) (offset + 4))"
  moreover have "0 \<le> le_int (py_slice extra_data (offset + 2) (offset + 4))"
    by (rule le_int_nonneg)
  ultimately show "((extra_data, offset + 4 + xa, compressed_size, uncompressed_size),
      (extra_data, offset, compressed_size, uncompressed_size))
    \<in> measure (\<lambda>(extra_data, offset, c, u). nat (int (length extra_data) - offset))"
    by simp
qed

text \<open>
  \<^verbatim>\<open>_get_local_file_header_info(local_header_offset)\<close> of \<^verbatim>\<open>peekxtract.py\<close>: the
  payload offset, the compressed size and the compression method of a member, from
  its 30-byte local header.
\<close>

definition get_local_file_header_info :: "reader \<Rightarrow> int \<Rightarrow> error + (int \<times> int \<times> int)" where
  "get_local_file_header_info rd local_header_offset =
     raise_or (rd local_header_offset 30) (\<lambda>header_data.
     raise_or (unpack_uint 4 (py_slice header_data 0 4)) (\<lambda>signature.
       if signature \<noteq> 0x04034b50 then Inl InvalidLocalHeaderSignature
       else
     raise_or (struct_unpack [2, 2, 2, 2, 2, 4, 4, 4, 2, 2] (py_slice header_data 4 30)) (\<lambda>h.
       let compression_method = h ! 2; compressed_size = h ! 6; uncompressed_size = h ! 7;
           filename_len = h ! 8; extra_len = h ! 9
       in
     raise_or (rd (local_header_offset + 30) (filename_len + extra_len)) (\<lambda>variable_data.
       let data_offset = local_header_offset + 30 + filename_len + extra_len in
       if extra_len > 0 \<and> (compressed_size = 0xFFFFFFFF \<or> uncompressed_size = 0xFFFFFFFF) then
         raise_or (local_zip64_scan (py_slice variable_data filename_len (filename_len + extra_len))
                     0 compressed_size uncompressed_size) (\<lambda>compressed_size.
           Inr (data_offset, compressed_size, compression_method))
       else Inr (data_offset, compressed_size, compression_method)))))"

subsection \<open>Planning and fetching the chunks of a download\<close>

text \<open>
  What \<^verbatim>\<open>download_file\<close> of \<^verbatim>\<open>peekxtract.py\<close> has fixed when it starts its worker
  pool: the payload offset, the compressed size it will fetch, the chunk size, the
  number of workers and the number of chunks.
\<close>

record chunk_plan =
  plan_data_offset :: int
  plan_expected_size :: int
  plan_chunk_size :: int
  plan_max_workers :: int
  plan_total_chunks :: int

text \<open>The chunk size and the number of workers chosen from the size to fetch.\<close>

definition chunk_geometry :: "int \<Rightarrow> int \<Rightarrow> int \<times> int" where
  "chunk_geometry expected_size max_workers =
     (if expected_size > 1024 * 1024 * 1024 then (16 * 1024 * 1024, 2)
      else if expected_size > 100 * 1024 * 1024 then (8 * 1024 * 1024, 3)
      else (4 * 1024 * 1024, max_workers))"

text \<open>
  \<^verbatim>\<open>download_file\<close> up to the start of the pool. \<open>Inr None\<close> is the early
  \<^verbatim>\<open>return False\<close> on a file number outside the catalog; an exception of the probe is
  caught by the function's handler, which also returns \<^verbatim>\<open>False\<close>. The output directory
  and path that the source prepares in between do not enter the plan.
\<close>

definition download_file_plan :: "reader \<Rightarrow> zip_reader \<Rightarrow> int \<Rightarrow> int \<Rightarrow> error + chunk_plan option" where
  "download_file_plan rd self display_file_number max_workers =
     (let actual_file_index = get_actual_file_index self (display_file_number - 1) in
      if actual_file_index < 0 \<or> actual_file_index \<ge> int (length (files_info self))
      then Inr None
      else
        (let file_info = files_info self ! nat actual_file_index;
             expected_size = fi_compressed_size file_info
         in raise_or (get_local_file_header_info rd (fi_local_header_offset file_info))
              (\<lambda>(data_offset, actual_compressed_size, _).
                 let expected_size =
                       (if actual_compressed_size > expected_size then actual_compressed_size
                        else expected_size);
                     (chunk_size, max_workers) = chunk_geometry expected_size max_workers;
                     total_chunks = (expected_size + chunk_size - 1) div chunk_size
                 in Inr (Some \<lparr>plan_data_offset = data_offset,
                      plan_expected_size = expected_size, plan_chunk_size = chunk_size,
                      plan_max_workers = max_workers, plan_total_chunks = total_chunks\<rparr>))))"

text \<open>
  The byte range \<^verbatim>\<open>(start, end)\<close>, both inclusive, that \<^verbatim>\<open>fetch_chunk(idx)\<close> computes,
  and its request \<^verbatim>\<open>self._read_bytes(start, end - start + 1)\<close>.
\<close>

definition fetch_chunk_range :: "chunk_plan \<Rightarrow> int \<Rightarrow> int \<times> int" where
  "fetch_chunk_range plan idx =
     (let start = plan_data_offset plan + idx * plan_chunk_size plan;
          end = min (start + plan_chunk_size plan - 1)
                  (plan_data_offset plan + plan_expected_size plan - 1)
      in (start, end))"

definition fetch_chunk :: "reader \<Rightarrow> chunk_plan \<Rightarrow> int \<Rightarrow> error + bytes" where
  "fetch_chunk rd plan idx =
     (case fetch_chunk_range plan idx of (start, end) \<Rightarrow> rd start (end - start + 1))"

text \<open>
  The pool runs \<^verbatim>\<open>fetch_chunk(i)\<close> for \<open>i\<close> in \<^verbatim>\<open>range(total_chunks)\<close>, stores each
  result in slot \<open>i\<close> and joins the slots in index order; the order of completion does
  not enter the result. An exception of any chunk makes the download fail.
\<close>

fun fetch_all :: "reader \<Rightarrow> chunk_plan \<Rightarrow> int list \<Rightarrow> error + bytes" where
  "fetch_all rd plan [] = Inr []"
| "fetch_all rd plan (i # is) =
     (case fetch_chunk rd plan i of
        Inl e \<Rightarrow> Inl e
      | Inr chunk \<Rightarrow>
          (case fetch_all rd plan is of
             Inl e \<Rightarrow> Inl e
           | Inr rest \<Rightarrow> Inr (chunk @ rest)))"

definition download_compressed_data :: "reader \<Rightarrow> chunk_plan \<Rightarrow> error + bytes" where
  "download_compressed_data rd plan = fetch_all rd plan [0..plan_total_chunks plan - 1]"

subsection \<open>The ZIP64 rule in the specification's words\<close>

text \<open>
  The specification's rule for the ZIP64 record, for any order of the three fields:
  go through the fields in that order; a field whose 32-bit header value is the
  sentinel takes the next 8 bytes of the record as its value, while 8 bytes remain;
  the other fields keep their header values. \<open>header_order\<close> is the order of the
  fields in the 46-byte header, which the specification names; \<open>record_order\<close> is
  the order in which the code tests them.
\<close>

datatype zip64_field = UncompressedSize | CompressedSize | LocalHeaderOffset

fun spec_zip64_values ::
  "zip64_field list \<Rightarrow> (zip64_field \<Rightarrow> int) \<Rightarrow> bytes \<Rightarrow> zip64_field \<Rightarrow> int" where
  "spec_zip64_values [] header zip64_data = header"
| "spec_zip64_values (f # fs) header zip64_data =
     (if header f = 0xFFFFFFFF \<and> 8 \<le> length zip64_data
      then (spec_zip64_values fs header (drop 8 zip64_data)) (f := le_int (take 8 zip64_data))
      else spec_zip64_values fs header zip64_data)"

definition header_order :: "zip64_field list" where
  "header_order = [CompressedSize, UncompressedSize, LocalHeaderOffset]"

definition record_order :: "zip64_field list" where
  "record_order = [UncompressedSize, CompressedSize, LocalHeaderOffset]"

definition header_fields :: "int \<Rightarrow> int \<Rightarrow> int \<Rightarrow> zip64_field \<Rightarrow> int" where
  "header_fields compressed_size uncompressed_size local_header_offset f =
     (case f of
        UncompressedSize \<Rightarrow> uncompressed_size
      | CompressedSize \<Rightarrow> compressed_size
      | LocalHeaderOffset \<Rightarrow> local_header_offset)"

text \<open>
  An extra field of 25 bytes: a record with header ID \<^verbatim>\<open>0x5455\<close> and one data byte,
  then the ZIP64 record at 5 with two 8-byte values, 5368709120 and 4831838208.
\<close>

definition zip64_extra :: bytes where
  "zip64_extra =
     [0x55, 0x54, 0x01, 0x00, 0x00,
      0x01, 0x00, 0x10, 0x00,
      0x00, 0x00, 0x00, 0x40, 0x01, 0x00, 0x00, 0x00,
      0x00, 0x00, 0x00, 0x20, 0x01, 0x00, 0x00, 0x00]"

subsection \<open>Concrete archives\<close>

text \<open>
  A complete archive of 127 bytes with the single stored member \<^verbatim>\<open>hello.txt\<close>, whose
  11 bytes are \<^verbatim>\<open>hello world\<close>: local header at 0, payload at 39, central directory
  at 50, end-of-central-directory record at 105.
\<close>

definition hello_zip :: bytes where
  "hello_zip =
     [0x50, 0x4b, 0x03, 0x04, 0x14, 0x00, 0x00, 0x00, 0x00, 0x00, 0x00, 0x00, 0x21, 0x00, 0x85, 0x11,
      0x4a, 0x0d, 0x0b, 0x00, 0x00, 0x00, 0x0b, 0x00, 0x00, 0x00, 0x09, 0x00, 0x00, 0x00, 0x68, 0x65,
      0x6c, 0x6c, 0x6f, 0x2e, 0x74, 0x78, 0x74, 0x68, 0x65, 0x6c, 0x6c, 0x6f, 0x20, 0x77, 0x6f, 0x72,
      0x6c, 0x64, 0x50, 0x4b, 0x01, 0x02, 0x14, 0x00, 0x14, 0x00, 0x00, 0x00, 0x00, 0x00, 0x00, 0x00,
      0x21, 0x00, 0x85, 0x11, 0x4a, 0x0d, 0x0b, 0x00, 0x00, 0x00, 0x0b, 0x00, 0x00, 0x00, 0x09, 0x00,
      0x00, 0x00, 0x00, 0x00, 0x00, 0x00, 0x00, 0x00, 0x00, 0x00, 0x80, 0x01, 0x00, 0x00, 0x00, 0x00,
      0x68, 0x65, 0x6c, 0x6c, 0x6f, 0x2e, 0x74, 0x78, 0x74, 0x50, 0x4b, 0x05, 0x06, 0x00, 0x00, 0x00,
      0x00, 0x01, 0x00, 0x01, 0x00, 0x37, 0x00, 0x00, 0x00, 0x32, 0x00, 0x00, 0x00, 0x00, 0x00]"

text \<open>The reader object once the catalog of that archive is loaded and listed.\<close>

definition hello_reader :: zip_reader where
  "hello_reader =
     \<lparr>file_size = 127,
      files_info = [\<lparr>fi_filename = codes ''hello.txt'', fi_compressed_size = 11,
                     fi_uncompressed_size = 11, fi_compression_method = 0,
                     fi_local_header_offset = 0, fi_crc32 = 0x0d4a1185\<rparr>],
      current_display_mapping = [(0, 0)]\<rparr>"

text \<open>
  The same member in an archive of 203 bytes with ZIP64 records: central directory at
  50 (55 bytes), ZIP64 end-of-central-directory record at 105, its locator at 161 and
  the end-of-central-directory record at 181. That last record carries the sentinel
  \<^verbatim>\<open>0xFFFFFFFF\<close> in its size field only; its offset field is 50 and its entry count 1.
\<close>

definition zip64_size_only_zip :: bytes where
  "zip64_size_only_zip =
     [0x50, 0x4b, 0x03, 0x04, 0x14, 0x00, 0x00, 0x00, 0x00, 0x00, 0x00, 0x00, 0x21, 0x00, 0x85, 0x11,
      0x4a, 0x0d, 0x0b, 0x00, 0x00, 0x00, 0x0b, 0x00, 0x00, 0x00, 0x09, 0x00, 0x00, 0x00, 0x68, 0x65,
      0x6c, 0x6c, 0x6f, 0x2e, 0x74, 0x78, 0x74, 0x68, 0x65, 0x6c, 0x6c, 0x6f, 0x20, 0x77, 0x6f, 0x72,
      0x6c, 0x64, 0x50, 0x4b, 0x01, 0x02, 0x14, 0x00, 0x14, 0x00, 0x00, 0x00, 0x00, 0x00, 0x00, 0x00,
      0x21, 0x00, 0x85, 0x11, 0x4a, 0x0d, 0x0b, 0x00, 0x00, 0x00, 0x0b, 0x00, 0x00, 0x00, 0x09, 0x00,
      0x00, 0x00, 0x00, 0x00, 0x00, 0x00, 0x00, 0x00, 0x00, 0x00, 0x00, 0x00, 0x00, 0x00, 0x00, 0x00,
      0x68, 0x65, 0x6c, 0x6c, 0x6f, 0x2e, 0x74, 0x78, 0x74, 0x50, 0x4b, 0x06, 0x06, 0x2c, 0x00, 0x00,
      0x00, 0x00, 0x00, 0x00, 0x00, 0x2d, 0x00, 0x2d, 0x00, 0x00, 0x00, 0x00, 0x00, 0x00, 0x00, 0x00,
      0x00, 0x01, 0x00, 0x00, 0x00, 0x00, 0x00, 0x00, 0x00, 0x01, 0x00, 0x00, 0x00, 0x00, 0x00, 0x00,
      0x00, 0x37, 0x00, 0x00, 0x00, 0x00, 0x00, 0x00, 0x00, 0x32, 0x00, 0x00, 0x00, 0x00, 0x00, 0x00,
      0x00, 0x50, 0x4b, 0x06, 0x07, 0x00, 0x00, 0x00, 0x00, 0x69, 0x00, 0x00, 0x00, 0x00, 0x00, 0x00,
      0x00, 0x01, 0x00, 0x00, 0x00, 0x50, 0x4b, 0x05, 0x06, 0x00, 0x00, 0x00, 0x00, 0x01, 0x00, 0x01,
      0x00, 0xff, 0xff, 0xff, 0xff, 0x32, 0x00, 0x00, 0x00, 0x00, 0x00]"

text \<open>
  The same archive with four bytes between the locator and the end-of-central-directory
  record (now at 185), whose offset field is the sentinel: the locator is not where the
  primary path looks, and only a scan finds it, at 161.
\<close>

definition displaced_locator_zip :: bytes where
  "displaced_locator_zip =
     [0x50, 0x4b, 0x03, 0x04, 0x14, 0x00, 0x00, 0x00, 0x00, 0x00, 0x00, 0x00, 0x21, 0x00, 0x85, 0x11,
      0x4a, 0x0d, 0x0b, 0x00, 0x00, 0x00, 0x0b, 0x00, 0x00, 0x00, 0x09, 0x00, 0x00, 0x00, 0x68, 0x65,
      0x6c, 0x6c, 0x6f, 0x2e, 0x74, 0x78, 0x74, 0x68, 0x65, 0x6c, 0x6c, 0x6f, 0x20, 0x77, 0x6f, 0x72,
      0x6c, 0x64, 0x50, 0x4b, 0x01, 0x02, 0x14, 0x00, 0x14, 0x00, 0x00, 0x00, 0x00, 0x00, 0x00, 0x00,
      0x21, 0x00, 0x85, 0x11, 0x4a, 0x0d, 0x0b, 0x00, 0x00, 0x00, 0x0b, 0x00, 0x00, 0x00, 0x09, 0x00,
      0x00, 0x00, 0x00, 0x00, 0x00, 0x00, 0x00, 0x00, 0x00, 0x00, 0x00, 0x00, 0x00, 0x00, 0x00, 0x00,
      0x68, 0x65, 0x6c, 0x6c, 0x6f, 0x2e, 0x74, 0x78, 0x74, 0x50, 0x4b, 0x06, 0x06, 0x2c, 0x00, 0x00,
      0x00, 0x00, 0x00, 0x00, 0x00, 0x2d, 0x00, 0x2d, 0x00, 0x00, 0x00, 0x00, 0x00, 0x00, 0x00, 0x00,
      0x00, 0x01, 0x00, 0x00, 0x00, 0x00, 0x00, 0x00, 0x00, 0x01, 0x00, 0x00, 0x00, 0x00, 0x00, 0x00,
      0x00, 0x37, 0x00, 0x00, 0x00, 0x00, 0x00, 0x00, 0x00, 0x32, 0x00, 0x00, 0x00, 0x00, 0x00, 0x00,
      0x00, 0x50, 0x4b, 0x06, 0x07, 0x00, 0x00, 0x00, 0x00, 0x69, 0x00, 0x00, 0x00, 0x00, 0x00, 0x00,
      0x00, 0x01, 0x00, 0x00, 0x00, 0x00, 0x00, 0x00, 0x00, 0x50, 0x4b, 0x05, 0x06, 0x00, 0x00, 0x00,
      0x00, 0x01, 0x00, 0x01, 0x00, 0x37, 0x00, 0x00, 0x00, 0xff, 0xff, 0xff, 0xff, 0x00, 0x00]"

text \<open>
  An archive of 115 bytes whose only member has the three name bytes \<^verbatim>\<open>61 ff 62\<close>; the
  second is not valid UTF-8. Central directory at 44 (49 bytes).
\<close>

definition bad_name_zip :: bytes where
  "bad_name_zip =
     [0x50, 0x4b, 0x03, 0x04, 0x14, 0x00, 0x00, 0x00, 0x00, 0x00, 0x00, 0x00, 0x21, 0x00, 0x85, 0x11,
      0x4a, 0x0d, 0x0b, 0x00, 0x00, 0x00, 0x0b, 0x00, 0x00, 0x00, 0x03, 0x00, 0x00, 0x00, 0x61, 0xff,
      0x62, 0x68, 0x65, 0x6c, 0x6c, 0x6f, 0x20, 0x77, 0x6f, 0x72, 0x6c, 0x64, 0x50, 0x4b, 0x01, 0x02,
      0x14, 0x00, 0x14, 0x00, 0x00, 0x00, 0x00, 0x00, 0x00, 0x00, 0x21, 0x00, 0x85, 0x11, 0x4a, 0x0d,
      0x0b, 0x00, 0x00, 0x00, 0x0b, 0x00, 0x00, 0x00, 0x03, 0x00, 0x00, 0x00, 0x00, 0x00, 0x00, 0x00,
      0x00, 0x00, 0x00, 0x00, 0x00, 0x00, 0x00, 0x00, 0x00, 0x00, 0x61, 0xff, 0x62, 0x50, 0x4b, 0x05,
      0x06, 0x00, 0x00, 0x00, 0x00, 0x01, 0x00, 0x01, 0x00, 0x31, 0x00, 0x00, 0x00, 0x2c, 0x00, 0x00,
      0x00, 0x00, 0x00]"

section \<open>Properties\<close>

subsection \<open>Range expressions\<close>

lemma parse_range_part_bounds:
  "set (parse_range_part to_int max_val result part0) \<subseteq> set result \<union> {1..max_val}"
proof (cases "45 \<in> set (py_strip part0)")
  case True
  obtain s e where se: "py_split1 45 (py_strip part0) = (s, e)"
    by (cases "py_split1 45 (py_strip part0)")
  show ?thesis
  proof (cases "to_int (py_strip s)")
    case None
    with True se show ?thesis by (simp add: parse_range_part_def)
  next
    case (Some a)
    note sa = Some
    show ?thesis
    proof (cases "to_int (py_strip e)")
      case None
      with True se sa show ?thesis by (simp add: parse_range_part_def)
    next
      case (Some b)
      show ?thesis
      proof (cases "a \<le> b \<and> a \<ge> 1 \<and> b \<le> max_val")
        case False
        then have "parse_range_part to_int max_val result part0 = result"
          using True se sa Some by (simp add: parse_range_part_def)
        then show ?thesis by simp
      next
        case ok: True
        then have "{a..b} \<subseteq> {1..max_val}" by auto
        moreover have "parse_range_part to_int max_val result part0 = result @ [a..b]"
          using True se sa Some ok by (simp add: parse_range_part_def)
        ultimately show ?thesis by auto
      qed
    qed
  qed
next
  case False
  show ?thesis
  proof (cases "to_int (py_strip part0)")
    case None
    with False show ?thesis by (simp add: parse_range_part_def)
  next
    case (Some n)
    with False show ?thesis by (auto simp: parse_range_part_def)
  qed
qed

lemma parse_range_fold_bounds:
  "set result \<subseteq> {1..max_val} \<Longrightarrow>
   set (foldl (parse_range_part to_int max_val) result parts) \<subseteq> {1..max_val}"
proof (induction parts arbitrary: result)
  case Nil
  then show ?case by simp
next
  case (Cons p ps)
  have "set (parse_range_part to_int max_val result p) \<subseteq> {1..max_val}"
    using Cons.prems parse_range_part_bounds [of to_int max_val result p] by blast
  then show ?case
    using Cons.IH by simp
qed

lemma parse_range_example_parts:
  "foldl (parse_range_part ascii_int 10) []
     (py_split 44 (codes ''3-5, 1,x,9-2,4,0-3,100, 7 - 8 '')) = [3, 4, 5, 1, 4, 7, 8]"
  by (simp add: codes_def parse_range_part_def py_strip_def is_space_def py_split1_def
      ascii_int_def is_digit_def)

lemma parse_range_example:
  "parse_range ascii_int (codes ''3-5, 1,x,9-2,4,0-3,100, 7 - 8 '') 10 = [1, 3, 4, 5, 7, 8]"
  unfolding parse_range_def parse_range_example_parts sorted_list_of_set_sort_remdups
  by simp

text \<open>
  C9. For every input string, whatever the conversion \<^verbatim>\<open>int\<close> accepts, and every
  \<^verbatim>\<open>max_val\<close>, \<^verbatim>\<open>parse_range\<close> returns a strictly increasing list (so its elements are
  distinct) of integers that all lie in \<open>[1, max_val]\<close>. The function is total: a part
  that does not convert, a reversed range and a value outside the bounds add nothing
  to the result and raise nothing.
\<close>

theorem parse_range_sorted_in_bounds:
  "sorted_wrt (<) (parse_range to_int range_str max_val)
   \<and> distinct (parse_range to_int range_str max_val)
   \<and> (\<forall>x\<in>set (parse_range to_int range_str max_val). 1 \<le> x \<and> x \<le> max_val)"
proof -
  let ?r = "foldl (parse_range_part to_int max_val) [] (py_split 44 range_str)"
  have "set ?r \<subseteq> {1..max_val}"
    by (rule parse_range_fold_bounds) simp
  then have "\<forall>x\<in>set ?r. 1 \<le> x \<and> x \<le> max_val"
    by auto
  then show ?thesis
    by (simp add: parse_range_def)
qed

theorem parse_range_sorted_in_bounds_witness:
  "parse_range ascii_int (codes ''3-5, 1,x,9-2,4,0-3,100, 7 - 8 '') 10 = [1, 3, 4, 5, 7, 8]
   \<and> sorted_wrt (<) (parse_range ascii_int (codes ''3-5, 1,x,9-2,4,0-3,100, 7 - 8 '') 10)
   \<and> distinct (parse_range ascii_int (codes ''3-5, 1,x,9-2,4,0-3,100, 7 - 8 '') 10)
   \<and> list_all (\<lambda>x. 1 \<le> x \<and> x \<le> 10)
        (parse_range ascii_int (codes ''3-5, 1,x,9-2,4,0-3,100, 7 - 8 '') 10)"
  using parse_range_sorted_in_bounds [of ascii_int "codes ''3-5, 1,x,9-2,4,0-3,100, 7 - 8 ''" 10]
    parse_range_example
  by (simp add: list_all_iff)

subsection \<open>The chunk plan covers the payload\<close>

lemma ceil_div_pos:
  fixes C k :: int
  assumes "0 < k"
  shows "(C + k - 1) div k = (C - 1) div k + 1"
proof -
  have "(C + k - 1) div k = ((C - 1) + k) div k" by (simp add: algebra_simps)
  also have "\<dots> = (C - 1) div k + 1" using assms by (simp add: div_add_self2)
  finally show ?thesis .
qed

lemma fetch_chunk_range_eq:
  "fetch_chunk_range plan i =
     (plan_data_offset plan + i * plan_chunk_size plan,
      min (plan_data_offset plan + (i + 1) * plan_chunk_size plan)
          (plan_data_offset plan + plan_expected_size plan) - 1)"
  by (simp add: fetch_chunk_range_def Let_def min_def algebra_simps)

lemma chunk_cover:
  fixes P C k N :: int
  assumes C: "0 < C" and k: "0 < k" and N: "N = (C + k - 1) div k"
  shows "(\<Union>i\<in>{0..<N}. {P + i * k..min (P + (i + 1) * k) (P + C) - 1}) = {P..<P + C}"
proof (rule set_eqI, rule iffI)
  fix x
  assume "x \<in> (\<Union>i\<in>{0..<N}. {P + i * k..min (P + (i + 1) * k) (P + C) - 1})"
  then obtain i where i: "0 \<le> i" "i < N" and x: "P + i * k \<le> x" "x \<le> min (P + (i + 1) * k) (P + C) - 1"
    by auto
  have "0 \<le> i * k" using i k by simp
  with x show "x \<in> {P..<P + C}" by auto
next
  fix x
  assume "x \<in> {P..<P + C}"
  then have x: "P \<le> x" "x < P + C" by auto
  define i where "i = (x - P) div k"
  have i0: "0 \<le> i" using x k by (simp add: i_def pos_imp_zdiv_nonneg_iff)
  have "i \<le> (C - 1) div k" unfolding i_def using x k by (intro zdiv_mono1) auto
  then have iN: "i < N" using N ceil_div_pos [OF k] by simp
  have "x - P = i * k + (x - P) mod k" unfolding i_def by simp
  moreover have "0 \<le> (x - P) mod k" using k by simp
  ultimately have lo: "i * k \<le> x - P" by linarith
  have "x - P = i * k + (x - P) mod k" unfolding i_def by simp
  moreover have "(x - P) mod k < k" using k by simp
  ultimately have hi: "x - P < (i + 1) * k" by (simp add: algebra_simps)
  have "x \<in> {P + i * k..min (P + (i + 1) * k) (P + C) - 1}"
    using lo hi x by auto
  with i0 iN show "x \<in> (\<Union>i\<in>{0..<N}. {P + i * k..min (P + (i + 1) * k) (P + C) - 1})"
    by auto
qed

lemma chunk_disjoint:
  fixes P C k :: int
  assumes k: "0 < k" and ij: "i < j"
  shows "{P + i * k..min (P + (i + 1) * k) (P + C) - 1} \<inter> {P + j * k..min (P + (j + 1) * k) (P + C) - 1} = {}"
proof -
  have "(i + 1) * k \<le> j * k" using ij k by (intro mult_right_mono) auto
  then show ?thesis by auto
qed

text \<open>
  C3. For a download with payload start \<open>P\<close>, compressed size \<open>C > 0\<close> and chunk size
  \<open>k > 0\<close>, planned as \<open>N = (C + k - 1) div k\<close> chunks: chunk \<open>i\<close> is the inclusive
  range \<open>[P + i * k, min (P + (i + 1) * k) (P + C) - 1]\<close>, the chunks \<open>0 \<le> i < N\<close>
  together are exactly the interval \<open>[P, P + C)\<close>, and two different chunks share
  no byte.
\<close>

theorem chunk_ranges_partition:
  assumes "0 < plan_expected_size plan" and "0 < plan_chunk_size plan"
    and "plan_total_chunks plan =
           (plan_expected_size plan + plan_chunk_size plan - 1) div plan_chunk_size plan"
  shows "(\<forall>i. fetch_chunk_range plan i =
            (plan_data_offset plan + i * plan_chunk_size plan,
             min (plan_data_offset plan + (i + 1) * plan_chunk_size plan)
                 (plan_data_offset plan + plan_expected_size plan) - 1))
       \<and> (\<Union>i\<in>{0..<plan_total_chunks plan}.
             {fst (fetch_chunk_range plan i)..snd (fetch_chunk_range plan i)})
           = {plan_data_offset plan..<plan_data_offset plan + plan_expected_size plan}
       \<and> (\<forall>i j. i \<noteq> j \<longrightarrow>
             {fst (fetch_chunk_range plan i)..snd (fetch_chunk_range plan i)}
             \<inter> {fst (fetch_chunk_range plan j)..snd (fetch_chunk_range plan j)} = {})"
proof (intro conjI allI impI)
  fix i
  show "fetch_chunk_range plan i =
            (plan_data_offset plan + i * plan_chunk_size plan,
             min (plan_data_offset plan + (i + 1) * plan_chunk_size plan)
                 (plan_data_offset plan + plan_expected_size plan) - 1)"
    by (rule fetch_chunk_range_eq)
next
  show "(\<Union>i\<in>{0..<plan_total_chunks plan}.
             {fst (fetch_chunk_range plan i)..snd (fetch_chunk_range plan i)})
           = {plan_data_offset plan..<plan_data_offset plan + plan_expected_size plan}"
    unfolding fetch_chunk_range_eq fst_conv snd_conv
    using assms by (rule chunk_cover)
next
  fix i j :: int
  assume "i \<noteq> j"
  then consider "i < j" | "j < i" by linarith
  then show "{fst (fetch_chunk_range plan i)..snd (fetch_chunk_range plan i)}
             \<inter> {fst (fetch_chunk_range plan j)..snd (fetch_chunk_range plan j)} = {}"
  proof cases
    case 1
    with assms(2) show ?thesis
      unfolding fetch_chunk_range_eq fst_conv snd_conv by (rule chunk_disjoint)
  next
    case 2
    with assms(2) have "{fst (fetch_chunk_range plan j)..snd (fetch_chunk_range plan j)}
             \<inter> {fst (fetch_chunk_range plan i)..snd (fetch_chunk_range plan i)} = {}"
      unfolding fetch_chunk_range_eq fst_conv snd_conv by (rule chunk_disjoint)
    then show ?thesis by (simp only: Int_commute)
  qed
qed

theorem chunk_ranges_partition_witness:
  "fetch_chunk_range \<lparr>plan_data_offset = 100, plan_expected_size = 10, plan_chunk_size = 4,
      plan_max_workers = 4, plan_total_chunks = 3\<rparr> 2 = (108, 109)
   \<and> (\<Union>i\<in>{0..<3}.
         {fst (fetch_chunk_range \<lparr>plan_data_offset = 100, plan_expected_size = 10,
                 plan_chunk_size = 4, plan_max_workers = 4, plan_total_chunks = 3\<rparr> i)..
          snd (fetch_chunk_range \<lparr>plan_data_offset = 100, plan_expected_size = 10,
                 plan_chunk_size = 4, plan_max_workers = 4, plan_total_chunks = 3\<rparr> i)})
       = {100..<110}
   \<and> {fst (fetch_chunk_range \<lparr>plan_data_offset = 100, plan_expected_size = 10,
             plan_chunk_size = 4, plan_max_workers = 4, plan_total_chunks = 3\<rparr> 1)..
        snd (fetch_chunk_range \<lparr>plan_data_offset = 100, plan_expected_size = 10,
             plan_chunk_size = 4, plan_max_workers = 4, plan_total_chunks = 3\<rparr> 1)}
       \<inter> {fst (fetch_chunk_range \<lparr>plan_data_offset = 100, plan_expected_size = 10,
             plan_chunk_size = 4, plan_max_workers = 4, plan_total_chunks = 3\<rparr> 2)..
          snd (fetch_chunk_range \<lparr>plan_data_offset = 100, plan_expected_size = 10,
             plan_chunk_size = 4, plan_max_workers = 4, plan_total_chunks = 3\<rparr> 2)} = {}"
proof -
  let ?p = "\<lparr>plan_data_offset = 100, plan_expected_size = 10, plan_chunk_size = 4,
      plan_max_workers = 4, plan_total_chunks = 3\<rparr>"
  have h: "0 < plan_expected_size ?p" "0 < plan_chunk_size ?p"
    "plan_total_chunks ?p = (plan_expected_size ?p + plan_chunk_size ?p - 1) div plan_chunk_size ?p"
    by simp_all
  note t = chunk_ranges_partition [OF h]
  have r: "fetch_chunk_range ?p 2 = (108, 109)"
    using t [THEN conjunct1, rule_format, of 2] by simp
  have u: "(\<Union>i\<in>{0..<plan_total_chunks ?p}.
              {fst (fetch_chunk_range ?p i)..snd (fetch_chunk_range ?p i)})
           = {plan_data_offset ?p..<plan_data_offset ?p + plan_expected_size ?p}"
    by (rule t [THEN conjunct2, THEN conjunct1])
  have d: "{fst (fetch_chunk_range ?p 1)..snd (fetch_chunk_range ?p 1)}
           \<inter> {fst (fetch_chunk_range ?p 2)..snd (fetch_chunk_range ?p 2)} = {}"
    by (rule t [THEN conjunct2, THEN conjunct2, rule_format]) simp
  have u': "(\<Union>i\<in>{0..<3}. {fst (fetch_chunk_range ?p i)..snd (fetch_chunk_range ?p i)})
           = {100..<110}"
    using u by simp
  from r u' d show ?thesis by (intro conjI)
qed

subsection \<open>Chunk geometry of a download\<close>

lemma ceil_div_bounds:
  fixes C k :: int
  assumes "0 < k"
  shows "((C + k - 1) div k - 1) * k < C \<and> C \<le> (C + k - 1) div k * k"
proof -
  define q where "q = (C + k - 1) div k"
  define r where "r = (C + k - 1) mod k"
  have eq: "C + k - 1 = q * k + r" by (simp add: q_def r_def)
  have r: "0 \<le> r" "r < k" using assms by (simp_all add: r_def)
  have "(q - 1) * k = q * k - k" by (simp add: algebra_simps)
  with eq r have "(q - 1) * k < C \<and> C \<le> q * k" by linarith
  then show ?thesis by (simp only: q_def)
qed

text \<open>
  C4. \<^verbatim>\<open>download_file\<close>, called as every call site of the repository calls it (with
  the default of 4 workers), on a file number of the catalog whose local header the
  probe reads: the size \<open>C\<close> it fetches is the larger of the catalog's compressed
  size and the probe's; chunk size and workers are chosen from that \<open>C\<close> (16 MiB and
  2 above 1 GiB, 8 MiB and 3 above 100 MiB, 4 MiB and 4 otherwise); and the number of
  chunks is \<open>N = (C + k - 1) div k\<close>, the least \<open>N\<close> with \<open>C \<le> N * k\<close>.
\<close>

theorem download_file_plan_geometry:
  assumes "get_actual_file_index self (display_file_number - 1) = a"
    and "0 \<le> a" and "a < int (length (files_info self))"
    and "get_local_file_header_info rd (fi_local_header_offset (files_info self ! nat a))
           = Inr (P, L, m)"
    and "C = max (fi_compressed_size (files_info self ! nat a)) L"
    and "k = (if C > 1024 * 1024 * 1024 then 16 * 1024 * 1024
              else if C > 100 * 1024 * 1024 then 8 * 1024 * 1024 else 4 * 1024 * 1024)"
    and "w = (if C > 1024 * 1024 * 1024 then 2 else if C > 100 * 1024 * 1024 then 3 else 4)"
    and "N = (C + k - 1) div k"
  shows "download_file_plan rd self display_file_number 4 =
           Inr (Some \<lparr>plan_data_offset = P, plan_expected_size = C, plan_chunk_size = k,
                      plan_max_workers = w, plan_total_chunks = N\<rparr>)
         \<and> (N - 1) * k < C \<and> C \<le> N * k"
proof -
  have geo: "chunk_geometry C 4 = (k, w)"
    using assms(6,7) by (simp add: chunk_geometry_def)
  have Cmax: "(if L > fi_compressed_size (files_info self ! nat a) then L
               else fi_compressed_size (files_info self ! nat a)) = C"
    using assms(5) by (simp add: max_def)
  have "download_file_plan rd self display_file_number 4 =
           Inr (Some \<lparr>plan_data_offset = P, plan_expected_size = C, plan_chunk_size = k,
                      plan_max_workers = w, plan_total_chunks = N\<rparr>)"
    using assms(1-4) assms(8)
    by (simp add: download_file_plan_def raise_or_def Let_def Cmax geo)
  moreover have "0 < k" using assms(6) by simp
  then have "(N - 1) * k < C \<and> C \<le> N * k"
    unfolding assms(8) by (rule ceil_div_bounds)
  ultimately show ?thesis by simp
qed

lemma hello_probe:
  "get_local_file_header_info (file_reader hello_zip) 0 = Inr (39, 11, 0)"
  by (simp add: get_local_file_header_info_def file_reader_def hello_zip_def py_slice_def
      slice_bound_def raise_or_def unpack_uint_def struct_unpack_def Let_def)

theorem download_file_plan_geometry_witness:
  "download_file_plan (file_reader hello_zip) hello_reader 1 4 =
     Inr (Some \<lparr>plan_data_offset = 39, plan_expected_size = 11,
                plan_chunk_size = 4 * 1024 * 1024, plan_max_workers = 4,
                plan_total_chunks = 1\<rparr>)
   \<and> (1 - 1) * (4 * 1024 * 1024) < (11::int) \<and> (11::int) \<le> 1 * (4 * 1024 * 1024)"
proof -
  have a: "get_actual_file_index hello_reader (1 - 1) = 0"
    by (simp add: get_actual_file_index_def hello_reader_def)
  have f: "files_info hello_reader ! 0 =
      \<lparr>fi_filename = codes ''hello.txt'', fi_compressed_size = 11,
       fi_uncompressed_size = 11, fi_compression_method = 0,
       fi_local_header_offset = 0, fi_crc32 = 0x0d4a1185\<rparr>"
    by (simp add: hello_reader_def)
  have p: "get_local_file_header_info (file_reader hello_zip)
      (fi_local_header_offset (files_info hello_reader ! nat 0)) = Inr (39, 11, 0)"
    by (simp add: f hello_probe)
  have l: "(0::int) < int (length (files_info hello_reader))"
    by (simp add: hello_reader_def)
  show ?thesis
    using download_file_plan_geometry [OF a _ l p, of 11 "4 * 1024 * 1024" 4 1]
    by (simp add: f)
qed

subsection \<open>The ranged read: retries and accepted responses\<close>

lemma upto_0_2: "[0..3 - 1] = [0, 1, (2::int)]"
  by (simp add: upto_rec1)

lemma upto_0_2_eval: "[0..2] = [0, 1, (2::int)]"
  by (simp add: upto_rec1)

text \<open>
  C5, as the code has it. \<^verbatim>\<open>_read_bytes\<close> with its default of three attempts returns
  the body of the first attempt that is answered with 206 or 200. It sleeps 1 second
  after a failed first attempt and 2 seconds after a failed second one, and nothing
  after the third: when all three fail it raises, having slept 1 and 2 seconds. No
  sleep of 4 seconds occurs.
\<close>

theorem read_bytes_backoff:
  "(accepted (session start (start + len - 1) 0) \<longrightarrow>
      read_bytes session start len 3
        = (Inr (Some (body (session start (start + len - 1) 0))), []))
   \<and> (\<not> accepted (session start (start + len - 1) 0)
        \<and> accepted (session start (start + len - 1) 1) \<longrightarrow>
      read_bytes session start len 3
        = (Inr (Some (body (session start (start + len - 1) 1))), [1]))
   \<and> (\<not> accepted (session start (start + len - 1) 0)
        \<and> \<not> accepted (session start (start + len - 1) 1)
        \<and> accepted (session start (start + len - 1) 2) \<longrightarrow>
      read_bytes session start len 3
        = (Inr (Some (body (session start (start + len - 1) 2))), [1, 2]))
   \<and> (\<not> accepted (session start (start + len - 1) 0)
        \<and> \<not> accepted (session start (start + len - 1) 1)
        \<and> \<not> accepted (session start (start + len - 1) 2) \<longrightarrow>
      read_bytes session start len 3 = (Inl ReadFailed, [1, 2]))"
  unfolding read_bytes_def Let_def upto_0_2
  by (cases "session start (start + len - 1) 0"; cases "session start (start + len - 1) 1";
      cases "session start (start + len - 1) 2")
     (simp_all add: accepted_def body_def)

theorem read_bytes_backoff_witness:
  "read_bytes (\<lambda>s e attempt. if attempt = 0 then RequestException
                 else if attempt = 1 then Response 503 []
                 else Response 206 [0x50, 0x4b]) 0 2 3
     = (Inr (Some [0x50, 0x4b]), [1, 2])"
  using read_bytes_backoff [of "\<lambda>s e attempt. if attempt = 0 then RequestException
                 else if attempt = 1 then Response 503 []
                 else Response 206 [0x50, 0x4b]" 0 2]
  by (simp add: accepted_def body_def)

theorem read_bytes_backoff_counterexample:
  "read_bytes (\<lambda>s e attempt. RequestException) 0 2 3 = (Inl ReadFailed, [1, 2])
   \<and> snd (read_bytes (\<lambda>s e attempt. RequestException) 0 2 3) \<noteq> [1, 2, 4]
   \<and> 4 \<notin> set (snd (read_bytes (\<lambda>s e attempt. RequestException) 0 2 3))"
  by (simp add: read_bytes_def upto_0_2_eval)

text \<open>
  C8, as the code has it. In both files a ranged read whose first answer has status
  200 (or 206) returns the body of that answer, whatever its length: the length of
  the requested span is not compared with anything.
\<close>

theorem read_accepts_any_length:
  assumes "session start (start + len - 1) 0 = Response status_code content"
    and "status_code = 200 \<or> status_code = 206"
  shows "read_bytes session start len 3 = (Inr (Some content), [])
         \<and> main_read_bytes session start len = Inr content"
  using assms unfolding read_bytes_def main_read_bytes_def Let_def upto_0_2
  by auto

theorem read_accepts_any_length_witness:
  "read_bytes (\<lambda>s e attempt. Response 200 [0x50, 0x4b, 0x03, 0x04, 0x14, 0x00]) 4 2 3
     = (Inr (Some [0x50, 0x4b, 0x03, 0x04, 0x14, 0x00]), [])
   \<and> main_read_bytes (\<lambda>s e attempt. Response 200 [0x50, 0x4b, 0x03, 0x04, 0x14, 0x00]) 4 2
     = Inr [0x50, 0x4b, 0x03, 0x04, 0x14, 0x00]"
  using read_accepts_any_length [of "\<lambda>s e attempt. Response 200 [0x50, 0x4b, 0x03, 0x04, 0x14, 0x00]"
      4 2 200 "[0x50, 0x4b, 0x03, 0x04, 0x14, 0x00]"]
  by simp

theorem read_checks_length_counterexample:
  "fst (read_bytes (\<lambda>s e attempt. Response 200 [1, 2, 3, 4, 5]) 0 2 3) = Inr (Some [1, 2, 3, 4, 5])
   \<and> main_read_bytes (\<lambda>s e attempt. Response 200 [1, 2, 3, 4, 5]) 0 2 = Inr [1, 2, 3, 4, 5]
   \<and> int (length [1, 2, 3, 4, 5 :: byte]) \<noteq> 2"
  by (simp add: read_bytes_def main_read_bytes_def upto_0_2_eval)

subsection \<open>Locating the central directory of a ZIP64 archive\<close>

text \<open>
  C2. On the archive whose end-of-central-directory record has the sentinel in its
  size field only, \<^verbatim>\<open>_find_end_of_central_directory\<close> of \<^verbatim>\<open>peekxtract.py\<close> returns
  the 32-bit fields as they are, size \<^verbatim>\<open>0xFFFFFFFF\<close> included, and never reads the ZIP64
  records; the function of \<^verbatim>\<open>main.py\<close>, which also tests the size field, returns the
  size 55 that the ZIP64 record holds.
\<close>

theorem eocd_size_sentinel_not_promoted:
  "find_end_of_central_directory (file_reader zip64_size_only_zip)
     \<lparr>file_size = 203, files_info = [], current_display_mapping = []\<rparr>
     = Inr (50, 0xFFFFFFFF)
   \<and> main_find_end_of_central_directory (file_reader zip64_size_only_zip)
     \<lparr>file_size = 203, files_info = [], current_display_mapping = []\<rparr>
     = Inr (50, 55)"
  by code_simp

text \<open>
  C6. On the archive whose locator only a scan can find, the fallback of
  \<^verbatim>\<open>peekxtract.py\<close>, which searches for \<^verbatim>\<open>50 4b 06 07\<close>, finds it and the central
  directory; the fallback of \<^verbatim>\<open>main.py\<close> searches for \<^verbatim>\<open>50 4b 07 06\<close> and reports that
  there is no locator.
\<close>

theorem main_fallback_misses_locator:
  "find_end_of_central_directory (file_reader displaced_locator_zip)
     \<lparr>file_size = 207, files_info = [], current_display_mapping = []\<rparr>
     = Inr (50, 55)
   \<and> main_find_end_of_central_directory (file_reader displaced_locator_zip)
     \<lparr>file_size = 207, files_info = [], current_display_mapping = []\<rparr>
     = Inl Zip64LocatorNotFound"
  by code_simp

subsection \<open>ZIP64 values of a central-directory record\<close>

lemma py_slice_nonneg:
  assumes "0 \<le> a" "a \<le> b" "b \<le> int (length xs)"
  shows "py_slice xs a b = take (nat (b - a)) (drop (nat a) xs)"
  using assms by (simp add: py_slice_def slice_bound_def Let_def nat_diff_distrib min_def)

lemma field_read:
  assumes "0 \<le> offset" "0 \<le> fo" "fo + 8 \<le> ds" "offset + 4 + ds \<le> int (length extra_data)"
  shows "unpack_uint 8 (py_slice extra_data (offset + 4 + fo) (offset + 4 + fo + 8))
         = Inr (le_int (take 8 (drop (nat fo) (py_slice extra_data (offset + 4) (offset + 4 + ds)))))"
proof -
  have a: "py_slice extra_data (offset + 4 + fo) (offset + 4 + fo + 8)
        = take 8 (drop (nat (offset + 4 + fo)) extra_data)"
    using assms by (subst py_slice_nonneg) simp_all
  have b: "py_slice extra_data (offset + 4) (offset + 4 + ds)
        = take (nat ds) (drop (nat (offset + 4)) extra_data)"
    using assms by (subst py_slice_nonneg) simp_all
  have c: "take 8 (drop (nat fo) (take (nat ds) (drop (nat (offset + 4)) extra_data)))
        = take 8 (drop (nat (offset + 4 + fo)) extra_data)"
    using assms by (simp add: drop_take nat_add_distrib min_def add.commute) 
  have len: "length (take 8 (drop (nat (offset + 4 + fo)) extra_data)) = 8"
    using assms by simp
  show ?thesis
    by (simp only: unpack_uint_def a b c len) simp
qed

lemma record_length:
  assumes "0 \<le> offset" "0 \<le> ds" "offset + 4 + ds \<le> int (length extra_data)"
  shows "int (length (py_slice extra_data (offset + 4) (offset + 4 + ds))) = ds"
  using assms by (subst py_slice_nonneg) simp_all


text \<open>
  C1, as the code has it. For the ZIP64 record that the scan of the extra field
  reaches at \<open>offset\<close>, lying within the extra field with its declared size: both
  files give each sentinel-valued field the next 8-byte value of the record in the
  order uncompressed size, compressed size, local-header offset, which is the order
  of the values in the record and not the order of the fields in the header (there
  the compressed size comes first).
\<close>

theorem zip64_fields_in_record_order:
  assumes "0 \<le> offset"
    and "le_int (py_slice extra_data offset (offset + 2)) = 0x0001"
    and "data_size = le_int (py_slice extra_data (offset + 2) (offset + 4))"
    and "offset + 4 + data_size \<le> int (length extra_data)"
    and "r = spec_zip64_values record_order
               (header_fields compressed_size uncompressed_size local_header_offset)
               (py_slice extra_data (offset + 4) (offset + 4 + data_size))"
  shows "parse_zip64_extra_field extra_data offset compressed_size uncompressed_size
           local_header_offset
         = Inr (Some (r UncompressedSize, r CompressedSize, r LocalHeaderOffset))
       \<and> main_parse_zip64_extra_field extra_data offset compressed_size uncompressed_size
           local_header_offset
         = Some (r UncompressedSize, r CompressedSize, r LocalHeaderOffset)"
proof -
  let ?d = "py_slice extra_data (offset + 4) (offset + 4 + data_size)"
  have ds: "0 \<le> data_size" unfolding assms(3) by (rule le_int_nonneg)
  have len: "int (length ?d) = data_size"
    using assms(1) ds assms(4) by (rule record_length)
  have guard: "offset + 4 \<le> int (length extra_data)" using ds assms(4) by simp
  have rd: "unpack_uint 8 (py_slice extra_data (offset + 4 + fo) (offset + 4 + fo + 8))
         = Inr (le_int (take 8 (drop (nat fo) ?d)))" if "0 \<le> fo" "fo + 8 \<le> data_size" for fo
    using assms(1) that assms(4) by (rule field_read)
  have r0: "unpack_uint 8 (py_slice extra_data (offset + 4 + 0) (offset + 4 + 0 + 8))
         = Inr (le_int (take 8 ?d))" if "8 \<le> data_size"
    using rd [of 0] that by simp
  have r8: "unpack_uint 8 (py_slice extra_data (offset + 4 + (0 + 8)) (offset + 4 + (0 + 8) + 8))
         = Inr (le_int (take 8 (drop 8 ?d)))" if "16 \<le> data_size"
    using rd [of 8] that by simp
  have r16: "unpack_uint 8 (py_slice extra_data (offset + 4 + (0 + 8 + 8)) (offset + 4 + (0 + 8 + 8) + 8))
         = Inr (le_int (take 8 (drop 16 ?d)))" if "24 \<le> data_size"
    using rd [of 16] that by simp
  have len': "length ?d = nat data_size" using len by simp
  have rec: "zip64_record_values extra_data offset data_size compressed_size uncompressed_size
           local_header_offset
         = Inr (r UncompressedSize, r CompressedSize, r LocalHeaderOffset)"
    using r0 r8 r16 ds
    by (auto simp: zip64_record_values_def raise_or_def assms(5) record_order_def
        header_fields_def len')
  have mrec: "main_zip64_record_values ?d compressed_size uncompressed_size local_header_offset
         = (r UncompressedSize, r CompressedSize, r LocalHeaderOffset)"
    using ds
    by (auto simp: main_zip64_record_values_def assms(5) record_order_def
        header_fields_def len' py_slice_nonneg)
  show ?thesis
    using guard assms(2) assms(3) rec mrec
    by (simp add: parse_zip64_extra_field.simps main_parse_zip64_extra_field.simps)
qed

lemma zip64_extra_run:
  "parse_zip64_extra_field zip64_extra 0 0xFFFFFFFF 0xFFFFFFFF 7
     = Inr (Some (5368709120, 4831838208, 7))"
  by code_simp

theorem zip64_fields_in_record_order_witness:
  "parse_zip64_extra_field zip64_extra 5 0xFFFFFFFF 0xFFFFFFFF 7
     = Inr (Some (5368709120, 4831838208, 7))
   \<and> main_parse_zip64_extra_field zip64_extra 5 0xFFFFFFFF 0xFFFFFFFF 7
     = Some (5368709120, 4831838208, 7)
   \<and> parse_zip64_extra_field zip64_extra 0 0xFFFFFFFF 0xFFFFFFFF 7
     = Inr (Some (5368709120, 4831838208, 7))"
proof -
  have h: "le_int (py_slice zip64_extra 5 (5 + 2)) = 0x0001"
    "16 = le_int (py_slice zip64_extra (5 + 2) (5 + 4))"
    "5 + 4 + 16 \<le> int (length zip64_extra)"
    by code_simp+
  have d: "py_slice zip64_extra 9 25 =
      [0x00, 0x00, 0x00, 0x40, 0x01, 0x00, 0x00, 0x00,
       0x00, 0x00, 0x00, 0x20, 0x01, 0x00, 0x00, 0x00]"
    by code_simp
  show ?thesis
    using zip64_fields_in_record_order [where compressed_size = "0xFFFFFFFF"
        and uncompressed_size = "0xFFFFFFFF" and local_header_offset = 7, OF _ h refl]
      zip64_extra_run
    by (simp add: d record_order_def header_fields_def)
qed

theorem zip64_header_order_counterexample:
  "parse_zip64_extra_field (drop 5 zip64_extra) 0 0xFFFFFFFF 0xFFFFFFFF 7
     = Inr (Some (5368709120, 4831838208, 7))
   \<and> main_parse_zip64_extra_field (drop 5 zip64_extra) 0 0xFFFFFFFF 0xFFFFFFFF 7
     = Some (5368709120, 4831838208, 7)
   \<and> spec_zip64_values header_order (header_fields 0xFFFFFFFF 0xFFFFFFFF 7)
       (drop 9 zip64_extra) UncompressedSize = 4831838208
   \<and> spec_zip64_values header_order (header_fields 0xFFFFFFFF 0xFFFFFFFF 7)
       (drop 9 zip64_extra) CompressedSize = 5368709120"
  by code_simp

subsection \<open>Member names with invalid bytes\<close>

lemma never_valid_head:
  "never_valid x \<Longrightarrow> utf8_decode_ignore (x # post) = utf8_decode_ignore post"
  by (subst utf8_decode_ignore.simps(2)) (auto simp: never_valid_def Let_def)

lemma never_valid_not_cont:
  "never_valid x \<Longrightarrow> \<not> is_cont (unat x)"
  by (auto simp: never_valid_def is_cont_def)

lemma never_valid_not_second:
  "never_valid x \<Longrightarrow> \<not> valid_second n (unat x)"
  by (auto simp: never_valid_def valid_second_def is_cont_def)

lemma invalid_byte_dropped:
  "never_valid x \<Longrightarrow>
   utf8_decode_ignore (pre @ x # post) = utf8_decode_ignore pre @ utf8_decode_ignore post"
proof (induction "length pre" arbitrary: pre rule: less_induct)
  case less
  note nv = never_valid_head [OF less.prems] never_valid_not_cont [OF less.prems]
    never_valid_not_second [OF less.prems]
  show ?case
  proof (cases pre)
    case Nil
    then show ?thesis by (simp add: nv)
  next
    case (Cons b t)
    note pre = Cons
    have H0: "utf8_decode_ignore (t @ x # post) = utf8_decode_ignore t @ utf8_decode_ignore post"
      using less.hyps [of t] less.prems pre by simp
    show ?thesis
    proof (cases t)
      case Nil
      then show ?thesis
        using pre by (simp add: utf8_decode_ignore.simps(2) [of b] Let_def nv)
    next
      case (Cons c1 r1)
      note t = Cons
      have H1: "utf8_decode_ignore (r1 @ x # post)
          = utf8_decode_ignore r1 @ utf8_decode_ignore post"
        using less.hyps [of r1] less.prems pre t by simp
      show ?thesis
      proof (cases r1)
        case Nil
        then show ?thesis
          using pre t H0 by (simp add: utf8_decode_ignore.simps(2) [of b] Let_def nv)
      next
        case (Cons c2 r2)
        note r1 = Cons
        have H2: "utf8_decode_ignore (r2 @ x # post)
            = utf8_decode_ignore r2 @ utf8_decode_ignore post"
          using less.hyps [of r2] less.prems pre t r1 by simp
        show ?thesis
        proof (cases r2)
          case Nil
          then show ?thesis
            using pre t r1 H0 H1 by (simp add: utf8_decode_ignore.simps(2) [of b] Let_def nv)
        next
          case (Cons c3 r3)
          have H3: "utf8_decode_ignore (r3 @ x # post)
              = utf8_decode_ignore r3 @ utf8_decode_ignore post"
            using less.hyps [of r3] less.prems pre t r1 Cons by simp
          show ?thesis
            using pre t r1 Cons H0 H1 H2 H3
            by (simp add: utf8_decode_ignore.simps(2) [of b] Let_def nv)
        qed
      qed
    qed
  qed
qed

lemma holds_replacement_Cons: "holds_replacement bs \<Longrightarrow> holds_replacement (b # bs)"
  unfolding holds_replacement_def by (metis append_Cons)

lemma holds_replacement_here: "holds_replacement (0xEF # 0xBF # 0xBD # bs)"
  unfolding holds_replacement_def by (metis append_Cons append_Nil)

lemma byte_eq:
  "unat (b :: byte) = 239 \<Longrightarrow> b = 0xEF"
  "unat (b :: byte) = 191 \<Longrightarrow> b = 0xBF"
  "unat (b :: byte) = 189 \<Longrightarrow> b = 0xBD"
  by (simp_all add: word_unat_eq_iff)

lemma three_byte_fffd:
  fixes n c1 c2 :: nat
  assumes eq: "(n - 224) * 4096 + (c1 - 128) * 64 + (c2 - 128) = 65533"
    and b: "224 \<le> n" "n \<le> 239" "128 \<le> c1" "c1 \<le> 191" "128 \<le> c2" "c2 \<le> 191"
  shows "n = 239 \<and> c1 = 191 \<and> c2 = 189"
proof -
  have n: "n = 239" using eq b by linarith
  have c1: "c1 = 191" using eq b n by linarith
  have c2: "c2 = 189" using eq b n c1 by linarith
  from n c1 c2 show ?thesis by simp
qed

lemma two_byte_small:
  fixes n c1 :: nat
  assumes "n \<le> 223" "c1 \<le> 191"
  shows "(n - 192) * 64 + (c1 - 128) \<noteq> 65533"
  using assms by linarith

lemma four_byte_large:
  fixes n c1 x :: nat
  assumes "240 \<le> n" "valid_second n c1"
  shows "(n - 240) * 262144 + (c1 - 128) * 4096 + x \<noteq> 65533"
proof (cases "n = 240")
  case True
  with assms have "144 \<le> c1" by (simp add: valid_second_def)
  then show ?thesis by linarith
next
  case False
  with assms have "241 \<le> n" by simp
  then show ?thesis by linarith
qed

lemma four_byte_large_sub:
  fixes n c1 c2 c3 :: nat
  assumes "240 \<le> n" "valid_second n c1" "128 \<le> c3"
  shows "(n - 240) * 262144 + (c1 - 128) * 4096 + (c2 - 128) * 64 + c3 - 128 \<noteq> 65533"
proof (cases "n = 240")
  case True
  with assms have "144 \<le> c1" by (simp add: valid_second_def)
  with assms(3) show ?thesis by linarith
next
  case False
  with assms have "241 \<le> n" by simp
  with assms(3) show ?thesis by linarith
qed

lemma valid_second_cont: "224 \<le> n \<Longrightarrow> valid_second n c \<Longrightarrow> 128 \<le> c \<and> c \<le> 191"
  by (auto simp: valid_second_def is_cont_def split: if_splits)

lemma three_byte_here:
  assumes "(unat b - 224) * 4096 + (unat c1 - 128) * 64 + (unat c2 - 128) = 65533"
    and "224 \<le> unat b" "unat b \<le> 239" "valid_second (unat b) (unat c1)" "is_cont (unat c2)"
  shows "holds_replacement (b # c1 # c2 # r)"
proof -
  have "128 \<le> unat c1 \<and> unat c1 \<le> 191" using assms(2,4) by (rule valid_second_cont)
  moreover have "128 \<le> unat c2 \<and> unat c2 \<le> 191" using assms(5) by (simp add: is_cont_def)
  ultimately have "unat b = 239 \<and> unat c1 = 191 \<and> unat c2 = 189"
    using three_byte_fffd [OF assms(1) assms(2) assms(3)] by blast
  then have "b = 0xEF" "c1 = 0xBF" "c2 = 0xBD" by (simp_all add: byte_eq)
  then show ?thesis by (simp add: holds_replacement_here)
qed

lemma replacement_only_if_encoded:
  "65533 \<in> set (utf8_decode_ignore bs) \<Longrightarrow> holds_replacement bs"
proof (induction "length bs" arbitrary: bs rule: less_induct)
  case less
  note C = holds_replacement_Cons
  show ?case
  proof (cases bs)
    case Nil
    with less.prems show ?thesis by simp
  next
    case (Cons b t)
    note bs = Cons
    have H0: "65533 \<in> set (utf8_decode_ignore t) \<Longrightarrow> holds_replacement (b # t)"
      using less.hyps [of t] bs by (simp add: C)
    show ?thesis
    proof (cases t)
      case Nil
      then show ?thesis
        using less.prems bs
        by (simp add: utf8_decode_ignore.simps(2) [of b] Let_def split: if_splits)
    next
      case (Cons c1 r1)
      note t = Cons
      have H1: "65533 \<in> set (utf8_decode_ignore r1) \<Longrightarrow> holds_replacement (b # c1 # r1)"
        using less.hyps [of r1] bs t by (simp add: C)
      show ?thesis
      proof (cases r1)
        case Nil
        then show ?thesis
          using less.prems bs t H0 
          by (auto simp: utf8_decode_ignore.simps(2) [of b] Let_def is_cont_def
              dest: two_byte_small split: if_splits)
      next
        case (Cons c2 r2)
        note r1 = Cons
        have H2: "65533 \<in> set (utf8_decode_ignore r2) \<Longrightarrow> holds_replacement (b # c1 # c2 # r2)"
          using less.hyps [of r2] bs t r1 by (simp add: C)
        show ?thesis
        proof (cases r2)
          case Nil
          then show ?thesis
            using less.prems bs t r1 H0 H1
            by (auto simp: utf8_decode_ignore.simps(2) [of b] Let_def is_cont_def
                intro: three_byte_here dest: two_byte_small split: if_splits)
        next
          case (Cons c3 r3)
          have H3: "65533 \<in> set (utf8_decode_ignore r3) \<Longrightarrow>
              holds_replacement (b # c1 # c2 # c3 # r3)"
            using less.hyps [of r3] bs t r1 Cons by (simp add: C)
          show ?thesis
            using less.prems bs t r1 Cons H0 H1 H2 H3
            by (auto simp: utf8_decode_ignore.simps(2) [of b] Let_def is_cont_def
                intro: three_byte_here dest: two_byte_small four_byte_large four_byte_large_sub
                split: if_splits)
        qed
      qed
    qed
  qed
qed

text \<open>
  C7, as the code has it. Member names are decoded with \<^verbatim>\<open>errors='ignore'\<close>: invalid
  bytes are dropped, not replaced. A name byte that is never valid in UTF-8 leaves no
  trace: the catalog name is what the bytes before it decode to, followed by what the
  bytes after it decode to. And the catalog name contains U+FFFD only if the name
  bytes themselves hold its encoding \<^verbatim>\<open>ef bf bd\<close>: the decoding puts no replacement
  character anywhere.
\<close>

theorem invalid_name_byte_dropped:
  assumes "filename_len > 0"
  shows "(\<forall>pre x post.
            py_slice cd_data filename_start filename_end = pre @ x # post \<and> never_valid x \<longrightarrow>
            cd_filename cd_data filename_start filename_end filename_len entry_count
              = utf8_decode_ignore pre @ utf8_decode_ignore post)
       \<and> (0xFFFD \<in> set (cd_filename cd_data filename_start filename_end filename_len
                            entry_count) \<longrightarrow>
            holds_replacement (py_slice cd_data filename_start filename_end))"
  using assms by (auto simp: cd_filename_def invalid_byte_dropped replacement_only_if_encoded)

theorem invalid_name_byte_dropped_witness:
  "cd_filename (py_slice bad_name_zip 44 93) 46 49 3 1 = [97, 98]"
proof -
  have n: "py_slice (py_slice bad_name_zip 44 93) 46 49 = [0x61] @ 0xff # [0x62]"
    by code_simp
  have v: "never_valid (0xff :: byte)"
    by (simp add: never_valid_def)
  have d: "utf8_decode_ignore [0x61] @ utf8_decode_ignore [0x62] = [97, 98]"
    by (simp add: utf8_decode_ignore.simps(2))
  have "cd_filename (py_slice bad_name_zip 44 93) 46 49 3 1
      = utf8_decode_ignore [0x61] @ utf8_decode_ignore [0x62]"
    using invalid_name_byte_dropped [where filename_len = 3 and entry_count = 1
        and cd_data = "py_slice bad_name_zip 44 93" and filename_start = 46
        and filename_end = 49, THEN conjunct1, rule_format, of "[0x61]" "0xff" "[0x62]"]
      n v
    by simp
  with d show ?thesis by simp
qed

lemma bad_name_catalog:
  "parse_central_directory (file_reader bad_name_zip)
     \<lparr>file_size = 115, files_info = [], current_display_mapping = []\<rparr>
   = Inr \<lparr>file_size = 115,
          files_info = [\<lparr>fi_filename = [97, 98], fi_compressed_size = 11,
                         fi_uncompressed_size = 11, fi_compression_method = 0,
                         fi_local_header_offset = 0, fi_crc32 = 0x0d4a1185\<rparr>],
          current_display_mapping = []\<rparr>"
  by code_simp

lemma bad_name_decoded: "utf8_decode_ignore [0x61, 0xff, 0x62] = [0x61, 0x62]"
  by (simp add: utf8_decode_ignore.simps(2))

theorem name_replacement_counterexample:
  "parse_central_directory (file_reader bad_name_zip)
     \<lparr>file_size = 115, files_info = [], current_display_mapping = []\<rparr>
   = Inr \<lparr>file_size = 115,
          files_info = [\<lparr>fi_filename = [97, 98], fi_compressed_size = 11,
                         fi_uncompressed_size = 11, fi_compression_method = 0,
                         fi_local_header_offset = 0, fi_crc32 = 0x0d4a1185\<rparr>],
          current_display_mapping = []\<rparr>
   \<and> utf8_decode_ignore [0x61, 0xff, 0x62] = [0x61, 0x62]
   \<and> 0xFFFD \<notin> set (utf8_decode_ignore [0x61, 0xff, 0x62])"
  using bad_name_catalog by (simp add: bad_name_decoded)

subsection \<open>Listing with a filter that matches nothing\<close>

lemma identity_mapping:
  "map (\<lambda>(i, info). (i, i)) (zip (map int [0..<length fs]) fs)
   = map (\<lambda>i. (int i, int i)) [0..<length fs]"
  by (rule nth_equalityI) simp_all

lemma identity_lookup:
  "(case map_of (map (\<lambda>i. (int i, int i)) [0..<n]) d of Some idx \<Rightarrow> idx | None \<Rightarrow> d) = d"
proof (cases "map_of (map (\<lambda>i. (int i, int i)) [0..<n]) d")
  case None
  then show ?thesis by simp
next
  case (Some idx)
  then have "(d, idx) \<in> set (map (\<lambda>i. (int i, int i)) [0..<n])"
    by (rule map_of_SomeD)
  then have "idx = d" by auto
  with Some show ?thesis by simp
qed

text \<open>
  C10. When \<^verbatim>\<open>list_files\<close> is given a non-empty filter that matches no name of the
  catalog, neither as a regular expression nor as a substring, it shows the whole
  catalog and sets the display mapping to the identity on all catalog indices, so
  that \<^verbatim>\<open>_get_actual_file_index\<close> maps every display index to itself.
\<close>

theorem list_files_no_match_shows_all:
  assumes run: "list_files re_compile lower rd self (Some pat) = Inr (self', shown)"
    and pat: "pat \<noteq> []"
    and regex: "\<forall>rx. re_compile pat = Some rx \<longrightarrow>
                  (\<forall>info\<in>set (files_info self'). \<not> rx (fi_filename info))"
    and substr: "\<forall>info\<in>set (files_info self').
                   \<not> is_substring (lower pat) (lower (fi_filename info))"
  shows "shown = files_info self'
       \<and> current_display_mapping self'
           = map (\<lambda>i. (int i, int i)) [0..<length (files_info self')]
       \<and> (\<forall>d. get_actual_file_index self' d = d)"
proof -
  obtain s1 where s1: "(if files_info self = [] then parse_central_directory rd self else Inr self)
      = Inr s1"
    using run by (cases "if files_info self = [] then parse_central_directory rd self else Inr self")
      (simp_all add: list_files_def raise_or_def)
  let ?items = "zip (map int [0..<length (files_info s1)]) (files_info s1)"
  have same: "files_info self' = files_info s1"
    using run s1 pat
    by (auto simp: list_files_def raise_or_def Let_def split: if_splits)
  have res: "self' = s1\<lparr>current_display_mapping :=
        map (\<lambda>i. (int i, int i)) [0..<length (files_info s1)]\<rparr> \<and> shown = files_info s1"
  proof (cases "re_compile pat")
    case None
    have "filter (\<lambda>(idx, info). is_substring (lower pat) (lower (fi_filename info))) ?items = []"
      using substr same by (auto simp: filter_empty_conv dest: set_zip_rightD)
    with None run s1 pat show ?thesis
      by (auto simp: list_files_def raise_or_def Let_def identity_mapping)
  next
    case (Some rx)
    have "filter (\<lambda>(idx, info). rx (fi_filename info)) ?items = []"
      using regex Some same by (auto simp: filter_empty_conv dest: set_zip_rightD)
    with Some run s1 pat show ?thesis
      by (auto simp: list_files_def raise_or_def Let_def identity_mapping)
  qed
  show ?thesis
    using res by (simp add: get_actual_file_index_def identity_lookup)
qed


lemma hello_name: "codes ''hello.txt'' = [104, 101, 108, 108, 111, 46, 116, 120, 116]"
  by (simp add: codes_def)

lemma hello_listing:
  "list_files literal_regex ascii_lower (file_reader hello_zip)
     \<lparr>file_size = 127, files_info = [], current_display_mapping = []\<rparr> (Some [122, 105, 112])
   = Inr (\<lparr>file_size = 127,
           files_info = [\<lparr>fi_filename = [104, 101, 108, 108, 111, 46, 116, 120, 116],
                          fi_compressed_size = 11, fi_uncompressed_size = 11,
                          fi_compression_method = 0, fi_local_header_offset = 0,
                          fi_crc32 = 0x0d4a1185\<rparr>],
           current_display_mapping = [(0, 0)]\<rparr>,
          [\<lparr>fi_filename = [104, 101, 108, 108, 111, 46, 116, 120, 116],
            fi_compressed_size = 11, fi_uncompressed_size = 11,
            fi_compression_method = 0, fi_local_header_offset = 0,
            fi_crc32 = 0x0d4a1185\<rparr>])"
  by code_simp

theorem list_files_no_match_shows_all_witness:
  "list_files literal_regex ascii_lower (file_reader hello_zip)
     \<lparr>file_size = 127, files_info = [], current_display_mapping = []\<rparr> (Some (codes ''zip''))
   = Inr (hello_reader, files_info hello_reader)
   \<and> current_display_mapping hello_reader = [(0, 0)]
   \<and> get_actual_file_index hello_reader 0 = 0"
proof -
  have z: "codes ''zip'' = [122, 105, 112]"
    by (simp add: codes_def)
  have run: "list_files literal_regex ascii_lower (file_reader hello_zip)
     \<lparr>file_size = 127, files_info = [], current_display_mapping = []\<rparr> (Some (codes ''zip''))
     = Inr (hello_reader, files_info hello_reader)"
    unfolding z using hello_listing by (simp add: hello_reader_def hello_name)
  have p: "codes ''zip'' \<noteq> []"
    by (simp add: z)
  have s: "\<forall>info\<in>set (files_info hello_reader).
      \<not> is_substring (ascii_lower (codes ''zip'')) (ascii_lower (fi_filename info))"
    by (simp add: hello_reader_def hello_name z ascii_lower_def)
  have r: "\<forall>rx. literal_regex (codes ''zip'') = Some rx \<longrightarrow>
      (\<forall>info\<in>set (files_info hello_reader). \<not> rx (fi_filename info))"
    using s by (auto simp: literal_regex_def z)
  show ?thesis
    using list_files_no_match_shows_all [OF run p r s] run
    by (simp add: hello_reader_def)
qed

end
